theory Spec2Isabelle
  imports Main "HOL-Library.Log_Nat"
begin

section \<open>Apple2Dreem: data model\<close>

text \<open>
  Durations. A Python \<^verbatim>\<open>timedelta\<close> is a whole number of microseconds. The constructor
  normalises its arguments to days, seconds and microseconds and raises
  \<^verbatim>\<open>OverflowError\<close> when the number of days leaves the range of plus or minus
  999999999.
\<close>

datatype py_error = IndexError | ValueError | OverflowError

type_synonym timedelta = int

definition td_seconds :: "int \<Rightarrow> timedelta" where
  "td_seconds n = n * 1000000"

definition td_days :: "int \<Rightarrow> timedelta" where
  "td_days n = n * 86400000000"

definition timedelta_of :: "int \<Rightarrow> py_error + timedelta" where
  "timedelta_of us =
     (if - 999999999 \<le> us div 86400000000 \<and> us div 86400000000 \<le> 999999999
      then Inr us else Inl OverflowError)"

text \<open>
  Timestamps. The intervals of the program carry a time zone, so a \<^verbatim>\<open>datetime\<close> here is
  an aware one. It consists of the reading of its own wall clock (\<open>wall\<close>, in
  microseconds since 0001-01-01T00:00:00), the \<^verbatim>\<open>fold\<close> flag (\<open>fold_dt\<close>) and the \<^verbatim>\<open>tzinfo\<close> object
  it refers to (\<open>tzinfo\<close>, the identity of that object). The wall clock of a datetime
  ranges from \<open>0\<close> to \<open>max_wall\<close>, which is 9999-12-31T23:59:59.999999.

  What a \<^verbatim>\<open>tzinfo\<close> object answers to \<^verbatim>\<open>utcoffset\<close> is given by an environment \<open>Z\<close>:
  \<open>Z z w f\<close> is the offset from UTC, in microseconds, that the object \<open>z\<close> reports for
  the wall clock reading \<open>w\<close> with fold \<open>f\<close>. A zone with daylight saving time reports
  different offsets for different readings.

  Python subtracts and compares two aware datetimes as follows: when both refer to the
  same \<^verbatim>\<open>tzinfo\<close> object, by their wall clocks alone; otherwise after taking the UTC
  offset off each wall clock. Adding a timedelta adds to the wall clock, keeps the
  \<^verbatim>\<open>tzinfo\<close> object, clears \<^verbatim>\<open>fold\<close>, and raises \<^verbatim>\<open>OverflowError\<close> when the result leaves
  the range of the calendar.
\<close>

record datetime =
  wall :: int
  fold_dt :: bool
  tzinfo :: nat

type_synonym tzenv = "nat \<Rightarrow> int \<Rightarrow> bool \<Rightarrow> int"

definition max_wall :: int where
  "max_wall = 315537897599999999"

definition utcoffset :: "tzenv \<Rightarrow> datetime \<Rightarrow> int" where
  "utcoffset Z d = Z (tzinfo d) (wall d) (fold_dt d)"

definition dt_sub :: "tzenv \<Rightarrow> datetime \<Rightarrow> datetime \<Rightarrow> timedelta" where
  "dt_sub Z a b =
     (if tzinfo a = tzinfo b then wall a - wall b
      else (wall a - utcoffset Z a) - (wall b - utcoffset Z b))"

definition dt_lt :: "tzenv \<Rightarrow> datetime \<Rightarrow> datetime \<Rightarrow> bool" where
  "dt_lt Z a b = (dt_sub Z a b < 0)"

definition dt_le :: "tzenv \<Rightarrow> datetime \<Rightarrow> datetime \<Rightarrow> bool" where
  "dt_le Z a b = (dt_sub Z a b \<le> 0)"

definition dt_add :: "datetime \<Rightarrow> timedelta \<Rightarrow> py_error + datetime" where
  "dt_add d td =
     (if 0 \<le> wall d + td \<and> wall d + td \<le> max_wall
      then Inr \<lparr>wall = wall d + td, fold_dt = False, tzinfo = tzinfo d\<rparr>
      else Inl OverflowError)"

text \<open>The stage labels the program works with: the range of \<^verbatim>\<open>map_sleep_stage\<close>.\<close>

datatype stage = Asleep | Light | Deep | REM | WAKE

record SleepSegment =
  Start :: datetime
  Stage :: stage

text \<open>A sleep entry; the quantity, which the summary never reads, has any type.\<close>

record 'q SleepEntry =
  Source :: string
  Qty :: 'q
  StartDate :: datetime
  Value :: string
  EndDate :: datetime

section \<open>Timeline builder\<close>

text \<open>
  \<^verbatim>\<open>create_30s_segments\<close>: while the current time is before the end, the loop appends a
  WAKE segment and advances the current time by thirty seconds. The advance raises
  \<^verbatim>\<open>OverflowError\<close> when it leaves the calendar, and then no list is returned.
\<close>

function create_30s_segments :: "tzenv \<Rightarrow> datetime \<Rightarrow> datetime \<Rightarrow> py_error + SleepSegment list" where
  "create_30s_segments Z current_time end_time =
     (if dt_lt Z current_time end_time
      then (case dt_add current_time (td_seconds 30) of
              Inl e \<Rightarrow> Inl e
            | Inr next_time \<Rightarrow>
                (case create_30s_segments Z next_time end_time of
                   Inl e \<Rightarrow> Inl e
                 | Inr segments \<Rightarrow> Inr (\<lparr>Start = current_time, Stage = WAKE\<rparr> # segments)))
      else Inr [])"
  by pat_completeness auto
termination
  by (relation "measure (\<lambda>(Z, c, e). nat (max_wall - wall c))")
     (auto simp: dt_add_def td_seconds_def split: if_splits)

declare create_30s_segments.simps [simp del]

definition map_sleep_stage :: "string \<Rightarrow> stage" where
  "map_sleep_stage s =
     (case map_of [(''Core'', Light), (''Asleep'', Asleep), (''Deep'', Deep),
                   (''REM'', REM), (''Awake'', WAKE), (''InBed'', WAKE)] s of
        None \<Rightarrow> WAKE
      | Some v \<Rightarrow> v)"

text \<open>
  \<^verbatim>\<open>update_segments_with_sleep_data\<close>: for each entry in turn, every segment whose start
  lies between the entry's start and end (both inclusive) and whose stage is still WAKE
  takes the entry's mapped stage.
\<close>

definition update_segment :: "tzenv \<Rightarrow> 'q SleepEntry \<Rightarrow> SleepSegment \<Rightarrow> SleepSegment" where
  "update_segment Z entry segment =
     (if dt_le Z (StartDate entry) (Start segment)
         \<and> dt_le Z (Start segment) (EndDate entry)
         \<and> Stage segment = WAKE
      then segment\<lparr>Stage := map_sleep_stage (Value entry)\<rparr>
      else segment)"

fun update_segments_with_sleep_data ::
  "tzenv \<Rightarrow> SleepSegment list \<Rightarrow> 'q SleepEntry list \<Rightarrow> SleepSegment list" where
  "update_segments_with_sleep_data Z segments [] = segments"
| "update_segments_with_sleep_data Z segments (entry # sleep_data) =
     update_segments_with_sleep_data Z (map (update_segment Z entry) segments) sleep_data"

section \<open>Durations as text\<close>

text \<open>
  \<^verbatim>\<open>int(td.total_seconds())\<close>. \<^verbatim>\<open>total_seconds\<close> divides the microseconds by \<open>10\<^sup>6\<close> with
  Python's true division of integers, which returns the double nearest to the exact
  quotient (ties to the even significand); \<^verbatim>\<open>int\<close> then truncates towards zero.
  \<open>round_half_even p q\<close> is the integer nearest to \<open>p / q\<close>; \<open>floor_log2_quot a b\<close> is the
  binary exponent of \<open>a / b\<close>; \<open>true_div_trunc a b\<close> is the integer part of the double
  nearest to \<open>a / b\<close>, for \<open>0 \<le> a\<close> and \<open>0 < b\<close>, a double having a significand of 53 bits.
\<close>

definition round_half_even :: "int \<Rightarrow> int \<Rightarrow> int" where
  "round_half_even p q =
     (let f = p div q; r = p mod q
      in if 2 * r < q then f
         else if q < 2 * r then f + 1
         else if even f then f else f + 1)"

definition floor_log2_quot :: "int \<Rightarrow> int \<Rightarrow> int" where
  "floor_log2_quot a b =
     (let d = bitlen a - bitlen b
      in if (if 0 \<le> d then b * 2 ^ nat d \<le> a else b \<le> a * 2 ^ nat (- d)) then d else d - 1)"

definition true_div_trunc :: "int \<Rightarrow> int \<Rightarrow> int" where
  "true_div_trunc a b =
     (if a = 0 then 0
      else let e = floor_log2_quot a b - 52
           in if 0 \<le> e then round_half_even a (b * 2 ^ nat e) * 2 ^ nat e
              else round_half_even (a * 2 ^ nat (- e)) b div 2 ^ nat (- e))"

definition total_seconds_int :: "timedelta \<Rightarrow> int" where
  "total_seconds_int td =
     (if 0 \<le> td then true_div_trunc td 1000000 else - true_div_trunc (- td) 1000000)"

text \<open>Decimal text of an integer, as \<^verbatim>\<open>str\<close> and the format spec \<^verbatim>\<open>02d\<close> give it.\<close>

definition digit_char :: "nat \<Rightarrow> char" where
  "digit_char d = ''0123456789'' ! d"

fun str_nat :: "nat \<Rightarrow> string" where
  "str_nat n = (if n < 10 then [digit_char n] else str_nat (n div 10) @ [digit_char (n mod 10)])"

declare str_nat.simps [simp del]

definition str_int :: "int \<Rightarrow> string" where
  "str_int i = (if i < 0 then CHR ''-'' # str_nat (nat (- i)) else str_nat (nat i))"

definition fmt_02d :: "int \<Rightarrow> string" where
  "fmt_02d i = (let s = str_int i in replicate (2 - length s) CHR ''0'' @ s)"

text \<open>The f-string \<^verbatim>\<open>f"{hours}:{minutes:02d}:{seconds:02d}"\<close> over a count of seconds,
  shared by \<^verbatim>\<open>calculate_duration\<close> and \<^verbatim>\<open>format_timedelta\<close>; \<^verbatim>\<open>//\<close> and \<^verbatim>\<open>%\<close> round
  towards minus infinity, as \<open>div\<close> and \<open>mod\<close> do.\<close>

definition format_hms :: "int \<Rightarrow> string" where
  "format_hms total_seconds =
     (let hours = total_seconds div 3600;
          minutes = (total_seconds mod 3600) div 60;
          seconds = total_seconds mod 60
      in str_int hours @ '':'' @ fmt_02d minutes @ '':'' @ fmt_02d seconds)"

definition calculate_duration :: "tzenv \<Rightarrow> datetime \<Rightarrow> datetime \<Rightarrow> string" where
  "calculate_duration Z start end = format_hms (total_seconds_int (dt_sub Z end start))"

definition format_timedelta :: "timedelta \<Rightarrow> string" where
  "format_timedelta td = format_hms (total_seconds_int td)"

text \<open>
  \<^verbatim>\<open>parse_duration_string\<close>: split at the colons, read each part with \<^verbatim>\<open>int\<close>, unpack
  exactly three values, build a timedelta. Strings are texts of 8-bit characters
  (Latin-1). On such a text \<^verbatim>\<open>int\<close> strips the white space at both ends, accepts one
  sign, and then wants decimal digits, where single underscores may stand between
  digits; it refuses texts of more than 4300 digits (the default limit of the
  interpreter). Any other text, and any other number of parts, raises \<^verbatim>\<open>ValueError\<close>.
\<close>

fun split_on :: "char \<Rightarrow> string \<Rightarrow> string list" where
  "split_on c [] = [[]]"
| "split_on c (x # xs) =
     (if x = c then [] # split_on c xs
      else (case split_on c xs of [] \<Rightarrow> [[x]] | w # ws \<Rightarrow> (x # w) # ws))"

definition is_space :: "char \<Rightarrow> bool" where
  "is_space c = ((of_char c :: nat) \<in> {9, 10, 11, 12, 13, 28, 29, 30, 31, 32, 133, 160})"

definition py_strip :: "string \<Rightarrow> string" where
  "py_strip s = rev (dropWhile is_space (rev (dropWhile is_space s)))"

definition digit_val :: "char \<Rightarrow> nat option" where
  "digit_val c =
     map_of [(CHR ''0'', 0), (CHR ''1'', 1), (CHR ''2'', 2), (CHR ''3'', 3), (CHR ''4'', 4),
             (CHR ''5'', 5), (CHR ''6'', 6), (CHR ''7'', 7), (CHR ''8'', 8), (CHR ''9'', 9)] c"

text \<open>\<open>parse_digits acc prev s\<close> reads digits with single underscores between them;
  \<open>prev\<close> tells whether the character before was a digit.\<close>

fun parse_digits :: "nat \<Rightarrow> bool \<Rightarrow> string \<Rightarrow> nat option" where
  "parse_digits acc prev [] = (if prev then Some acc else None)"
| "parse_digits acc prev (c # cs) =
     (if c = CHR ''_'' then (if prev \<and> cs \<noteq> [] then parse_digits acc False cs else None)
      else (case digit_val c of
              None \<Rightarrow> None
            | Some d \<Rightarrow> parse_digits (10 * acc + d) True cs))"

definition py_nat :: "string \<Rightarrow> py_error + int" where
  "py_nat s =
     (if 4300 < length (filter (\<lambda>c. c \<noteq> CHR ''_'') s) then Inl ValueError
      else (case parse_digits 0 False s of None \<Rightarrow> Inl ValueError | Some n \<Rightarrow> Inr (int n)))"

definition py_int :: "string \<Rightarrow> py_error + int" where
  "py_int s =
     (case py_strip s of
        [] \<Rightarrow> Inl ValueError
      | c # cs \<Rightarrow>
          if c = CHR ''-'' then (case py_nat cs of Inl e \<Rightarrow> Inl e | Inr n \<Rightarrow> Inr (- n))
          else if c = CHR ''+'' then py_nat cs
          else py_nat (c # cs))"

fun unpack3 :: "(py_error + int) list \<Rightarrow> py_error + timedelta" where
  "unpack3 [Inr hours, Inr minutes, Inr seconds] =
     timedelta_of (hours * 3600000000 + minutes * 60000000 + seconds * 1000000)"
| "unpack3 _ = Inl ValueError"

definition parse_duration_string :: "string \<Rightarrow> py_error + timedelta" where
  "parse_duration_string duration_str = unpack3 (map py_int (split_on CHR '':'' duration_str))"

section \<open>Night summarizer\<close>

text \<open>
  \<^verbatim>\<open>sorted(sleep_data, key=lambda entry: entry.StartDate)\<close> is a stable sort that compares
  the keys with \<^verbatim>\<open><\<close> only. It is given here as the stable insertion sort with that
  comparison, which returns the same list as Python's merge sort whenever \<^verbatim>\<open><\<close> orders
  the keys consistently (as it does when the zones have fixed offsets or all keys refer
  to one zone object).
\<close>

fun insort_lt :: "('a \<Rightarrow> 'a \<Rightarrow> bool) \<Rightarrow> 'a \<Rightarrow> 'a list \<Rightarrow> 'a list" where
  "insort_lt lt x [] = [x]"
| "insort_lt lt x (y # ys) = (if lt y x then y # insort_lt lt x ys else x # y # ys)"

definition py_sorted :: "('a \<Rightarrow> 'a \<Rightarrow> bool) \<Rightarrow> 'a list \<Rightarrow> 'a list" where
  "py_sorted lt xs = foldr (insort_lt lt) xs []"

definition apply_time_shift :: "datetime \<Rightarrow> int \<Rightarrow> py_error + datetime" where
  "apply_time_shift date_time shift_seconds =
     (case timedelta_of (td_seconds shift_seconds) of
        Inl e \<Rightarrow> Inl e
      | Inr td \<Rightarrow> dt_add date_time td)"

definition shift_entry :: "int \<Rightarrow> 'q SleepEntry \<Rightarrow> py_error + 'q SleepEntry" where
  "shift_entry time_shift_seconds entry =
     (case apply_time_shift (StartDate entry) time_shift_seconds of
        Inl e \<Rightarrow> Inl e
      | Inr start_date \<Rightarrow>
          (case apply_time_shift (EndDate entry) time_shift_seconds of
             Inl e \<Rightarrow> Inl e
           | Inr end_date \<Rightarrow> Inr (entry\<lparr>StartDate := start_date, EndDate := end_date\<rparr>)))"

text \<open>The loop that shifts the entries one after the other; the first failure ends it.\<close>

fun shift_entries :: "int \<Rightarrow> 'q SleepEntry list \<Rightarrow> py_error + 'q SleepEntry list" where
  "shift_entries time_shift_seconds [] = Inr []"
| "shift_entries time_shift_seconds (entry # sleep_data) =
     (case shift_entry time_shift_seconds entry of
        Inl e \<Rightarrow> Inl e
      | Inr entry' \<Rightarrow>
          (case shift_entries time_shift_seconds sleep_data of
             Inl e \<Rightarrow> Inl e
           | Inr sleep_data' \<Rightarrow> Inr (entry' # sleep_data')))"

text \<open>\<^verbatim>\<open>max\<close> over datetimes keeps the first of several equal maxima.\<close>

fun max_datetime :: "tzenv \<Rightarrow> datetime \<Rightarrow> datetime list \<Rightarrow> datetime" where
  "max_datetime Z m [] = m"
| "max_datetime Z m (x # xs) = max_datetime Z (if dt_lt Z m x then x else m) xs"

text \<open>The dictionary \<^verbatim>\<open>stage_durations\<close> has exactly the five stage labels as keys, so it
  is a total function on \<^typ>\<open>stage\<close>.\<close>

definition add_segment :: "SleepSegment \<Rightarrow> (stage \<Rightarrow> timedelta) \<Rightarrow> stage \<Rightarrow> timedelta" where
  "add_segment segment d = d(Stage segment := d (Stage segment) + td_seconds 30)"

definition stage_durations :: "SleepSegment list \<Rightarrow> stage \<Rightarrow> timedelta" where
  "stage_durations segments = fold add_segment segments (\<lambda>_. 0)"

definition sum5 :: "(stage \<Rightarrow> timedelta) \<Rightarrow> timedelta" where
  "sum5 d = d Asleep + d Light + d Deep + d REM + d WAKE"

definition num_awakenings :: "SleepSegment list \<Rightarrow> nat" where
  "num_awakenings segments =
     length (filter (\<lambda>(a, b). Stage a \<noteq> WAKE \<and> Stage b = WAKE) (zip segments (drop 1 segments)))"

fun stage_name :: "stage \<Rightarrow> string" where
  "stage_name Asleep = ''Asleep''"
| "stage_name Light = ''Light''"
| "stage_name Deep = ''Deep''"
| "stage_name REM = ''REM''"
| "stage_name WAKE = ''WAKE''"

fun join :: "string \<Rightarrow> string list \<Rightarrow> string" where
  "join sep [] = []"
| "join sep [x] = x"
| "join sep (x # y # ys) = x @ sep @ join sep (y # ys)"

text \<open>
  The output record. \<open>StartTime\<close> and \<open>StopTime\<close> hold the wall-clock second (counted from
  0001-01-01T00:00:00) that \<^verbatim>\<open>strftime("%Y-%m-%dT%H:%M:%S")\<close> writes out as calendar text;
  the duration fields hold the formatted strings.
\<close>

definition strftime_second :: "datetime \<Rightarrow> int" where
  "strftime_second d = wall d div 1000000"

record OutputData =
  Type :: string
  StartTime :: int
  StopTime :: int
  SleepDuration :: string
  SleepOnsetDuration :: string
  LightSleepDuration :: string
  DeepSleepDuration :: string
  REMDuration :: string
  WakeAfterSleepOnsetDuration :: string
  NumberOfAwakenings :: nat
  PositionChanges :: int
  MeanHeartRate :: int
  MeanRespirationCPM :: int
  NumberOfStimulations :: int
  SleepEfficiency :: int
  Hypnogram :: string

text \<open>
  The timeline of a night whose sorted and shifted entries are \<open>first # rest\<close>: it starts
  at the first entry's start and ends at the latest end.
\<close>

definition night_end_time :: "tzenv \<Rightarrow> 'q SleepEntry \<Rightarrow> 'q SleepEntry list \<Rightarrow> datetime" where
  "night_end_time Z first rest = max_datetime Z (EndDate first) (map EndDate rest)"

definition night_segments ::
  "tzenv \<Rightarrow> 'q SleepEntry \<Rightarrow> 'q SleepEntry list \<Rightarrow> py_error + SleepSegment list" where
  "night_segments Z first rest =
     (case create_30s_segments Z (StartDate first) (night_end_time Z first rest) of
        Inl e \<Rightarrow> Inl e
      | Inr segments \<Rightarrow> Inr (update_segments_with_sleep_data Z segments (first # rest)))"

text \<open>The first segment that is not WAKE, or else the first segment:
  \<^verbatim>\<open>next((s for s in segments if s.Stage != "WAKE"), segments[0])\<close>. The default
  \<^verbatim>\<open>segments[0]\<close> is evaluated before \<^verbatim>\<open>next\<close> is called, so an empty list raises.\<close>

definition sleep_onset_segment :: "SleepSegment list \<Rightarrow> py_error + SleepSegment" where
  "sleep_onset_segment segments =
     (case segments of
        [] \<Rightarrow> Inl IndexError
      | s0 # _ \<Rightarrow>
          (case find (\<lambda>segment. Stage segment \<noteq> WAKE) segments of
             None \<Rightarrow> Inr s0
           | Some segment \<Rightarrow> Inr segment))"

text \<open>
  \<open>summarize\<close> is \<^verbatim>\<open>process_health_data\<close> from line 109 on, after the entries have been
  sorted and shifted, up to the record it writes (the output file and the unused
  \<^verbatim>\<open>from_date\<close>, \<^verbatim>\<open>to_date\<close> parameters are left out).
\<close>

definition summarize :: "tzenv \<Rightarrow> 'q SleepEntry \<Rightarrow> 'q SleepEntry list \<Rightarrow> py_error + OutputData" where
  "summarize Z first rest =
     (let start_time = StartDate first;
          end_time = night_end_time Z first rest
      in case night_segments Z first rest of
           Inl e \<Rightarrow> Inl e
         | Inr segments \<Rightarrow>
             (let total_duration = calculate_duration Z start_time end_time
              in case sleep_onset_segment segments of
                   Inl e \<Rightarrow> Inl e
                 | Inr onset \<Rightarrow>
                     (let sleep_onset_duration = calculate_duration Z start_time (Start onset)
                      in case parse_duration_string sleep_onset_duration of
                           Inl e \<Rightarrow> Inl e
                         | Inr onset_td \<Rightarrow>
                             Inr \<lparr>Type = ''night'',
                                  StartTime = strftime_second start_time,
                                  StopTime = strftime_second end_time,
                                  SleepDuration = total_duration,
                                  SleepOnsetDuration = sleep_onset_duration,
                                  LightSleepDuration = format_timedelta (stage_durations segments Light),
                                  DeepSleepDuration = format_timedelta (stage_durations segments Deep),
                                  REMDuration = format_timedelta (stage_durations segments REM),
                                  WakeAfterSleepOnsetDuration =
                                    format_timedelta (stage_durations segments WAKE - onset_td),
                                  NumberOfAwakenings = num_awakenings segments,
                                  PositionChanges = 0,
                                  MeanHeartRate = 0,
                                  MeanRespirationCPM = 0,
                                  NumberOfStimulations = 0,
                                  SleepEfficiency = 0,
                                  Hypnogram = ''['' @ join '','' (map (\<lambda>segment. stage_name (Stage segment)) segments) @ '']''\<rparr>)))"

definition process_health_data ::
  "tzenv \<Rightarrow> 'q SleepEntry list \<Rightarrow> int \<Rightarrow> py_error + OutputData" where
  "process_health_data Z sleep_data time_shift_seconds =
     (case shift_entries time_shift_seconds
             (py_sorted (\<lambda>a b. dt_lt Z (StartDate a) (StartDate b)) sleep_data) of
        Inl e \<Rightarrow> Inl e
      | Inr [] \<Rightarrow> Inl IndexError
      | Inr (first # rest) \<Rightarrow> summarize Z first rest)"

section \<open>Night grouper\<close>

text \<open>
  The grouping loop of \<^verbatim>\<open>process_file\<close>, lines 269 to 298, over the sorted list
  \<^verbatim>\<open>all_sleep_data\<close>. A \<^verbatim>\<open>date\<close> is a day number counted from 0001-01-01, the last one
  being 3652058 (9999-12-31); a \<^verbatim>\<open>time\<close> is the microseconds since midnight. Both are
  read off the wall clock of a datetime. Adding days to a date raises \<^verbatim>\<open>OverflowError\<close>
  outside the calendar.
\<close>

definition date_of :: "datetime \<Rightarrow> int" where
  "date_of d = wall d div 86400000000"

definition time_of :: "datetime \<Rightarrow> int" where
  "time_of d = wall d mod 86400000000"

definition time_hms :: "int \<Rightarrow> int \<Rightarrow> int \<Rightarrow> int" where
  "time_hms h m s = ((h * 60 + m) * 60 + s) * 1000000"

definition combine :: "int \<Rightarrow> int \<Rightarrow> nat \<Rightarrow> datetime" where
  "combine d t tz = \<lparr>wall = d * 86400000000 + t, fold_dt = False, tzinfo = tz\<rparr>"

definition date_add :: "int \<Rightarrow> int \<Rightarrow> py_error + int" where
  "date_add d n = (if 0 \<le> d + n \<and> d + n \<le> 3652058 then Inr (d + n) else Inl OverflowError)"

definition night_date_of :: "datetime \<Rightarrow> py_error + int" where
  "night_date_of start_dt =
     (if time_hms 19 0 0 \<le> time_of start_dt then Inr (date_of start_dt)
      else (case dt_add start_dt (- td_days 1) of
              Inl e \<Rightarrow> Inl e
            | Inr d \<Rightarrow> Inr (date_of d)))"

record 'q group_state =
  grouped :: "(int option \<times> 'q SleepEntry list) list"
  current_night_start :: "int option"
  current_night_entries :: "'q SleepEntry list"

definition flush_night :: "'q group_state \<Rightarrow> (int option \<times> 'q SleepEntry list) list" where
  "flush_night st =
     (if current_night_entries st \<noteq> []
      then grouped st @ [(current_night_start st, current_night_entries st)]
      else grouped st)"

definition group_step ::
  "tzenv \<Rightarrow> datetime \<Rightarrow> datetime \<Rightarrow> 'q group_state \<Rightarrow> 'q SleepEntry \<Rightarrow> py_error + 'q group_state" where
  "group_step Z from_date to_date st entry =
     (let start_dt = StartDate entry; end_dt = EndDate entry
      in case night_date_of start_dt of
           Inl e \<Rightarrow> Inl e
         | Inr night_date \<Rightarrow>
             (let night_start_dt = combine night_date (time_hms 19 0 0) (tzinfo start_dt)
              in case date_add night_date 1 of
                   Inl e \<Rightarrow> Inl e
                 | Inr next_date \<Rightarrow>
                     (let night_end_dt = combine next_date (time_hms 11 0 0) (tzinfo start_dt)
                      in if dt_le Z night_start_dt start_dt \<and> dt_le Z end_dt night_end_dt
                            \<and> dt_le Z from_date start_dt \<and> dt_le Z end_dt to_date
                         then (let st' = (if current_night_start st \<noteq> Some night_date
                                          then \<lparr>grouped = flush_night st,
                                                current_night_start = Some night_date,
                                                current_night_entries = []\<rparr>
                                          else st)
                               in Inr (st'\<lparr>current_night_entries :=
                                             current_night_entries st' @ [entry]\<rparr>))
                         else Inr st)))"

fun group_entries ::
  "tzenv \<Rightarrow> datetime \<Rightarrow> datetime \<Rightarrow> 'q group_state \<Rightarrow> 'q SleepEntry list \<Rightarrow> py_error + 'q group_state" where
  "group_entries Z from_date to_date st [] = Inr st"
| "group_entries Z from_date to_date st (entry # all_sleep_data) =
     (case group_step Z from_date to_date st entry of
        Inl e \<Rightarrow> Inl e
      | Inr st' \<Rightarrow> group_entries Z from_date to_date st' all_sleep_data)"

definition grouped_sleep_data ::
  "tzenv \<Rightarrow> datetime \<Rightarrow> datetime \<Rightarrow> 'q SleepEntry list \<Rightarrow>
     py_error + (int option \<times> 'q SleepEntry list) list" where
  "grouped_sleep_data Z from_date to_date all_sleep_data =
     (case group_entries Z from_date to_date
             \<lparr>grouped = [], current_night_start = None, current_night_entries = []\<rparr>
             all_sleep_data of
        Inl e \<Rightarrow> Inl e
      | Inr st \<Rightarrow> Inr (flush_night st))"

section \<open>The specification's wording, for comparison\<close>

text \<open>The start of slot \<open>k\<close> of a timeline that starts at \<open>start_time\<close>: \<open>k\<close> times thirty
  seconds later on the same wall clock (with \<^verbatim>\<open>fold\<close> cleared by the addition), and the
  timeline of \<open>n\<close> such slots, all WAKE.\<close>

definition slot_start :: "datetime \<Rightarrow> nat \<Rightarrow> datetime" where
  "slot_start start_time k =
     (if k = 0 then start_time
      else \<lparr>wall = wall start_time + td_seconds 30 * int k, fold_dt = False,
            tzinfo = tzinfo start_time\<rparr>)"

definition wake_slots :: "datetime \<Rightarrow> nat \<Rightarrow> SleepSegment list" where
  "wake_slots start_time n = map (\<lambda>k. \<lparr>Start = slot_start start_time k, Stage = WAKE\<rparr>) [0 ..< n]"

text \<open>The slot count the specification states for the builder, in its own words:
  the ceiling of the span over thirty seconds when the span is a multiple of thirty
  seconds, one fewer otherwise.\<close>

definition spec_slot_count :: "timedelta \<Rightarrow> int" where
  "spec_slot_count d =
     (if d mod td_seconds 30 = 0 then - ((- d) div td_seconds 30)
      else - ((- d) div td_seconds 30) - 1)"

text \<open>The span rounded down to a multiple of thirty seconds.\<close>

definition spec_span_rounded_down :: "timedelta \<Rightarrow> timedelta" where
  "spec_span_rounded_down d = (d div td_seconds 30) * td_seconds 30"

text \<open>The span rounded up to a multiple of thirty seconds.\<close>

definition spec_span_rounded_up :: "timedelta \<Rightarrow> timedelta" where
  "spec_span_rounded_up d = td_seconds 30 * (- ((- d) div td_seconds 30))"

text \<open>The number of adjacent slot pairs, by position, whose first slot is not WAKE and
  whose second slot is WAKE.\<close>

definition spec_awakenings :: "SleepSegment list \<Rightarrow> nat" where
  "spec_awakenings segments =
     length (filter (\<lambda>i. Stage (segments ! i) \<noteq> WAKE \<and> Stage (segments ! Suc i) = WAKE)
               [0 ..< length segments - 1])"

section \<open>Zones used in the examples\<close>

text \<open>\<open>tz_utc\<close>: every zone object reports the offset zero. \<open>tz_dst\<close>: the object \<open>0\<close> is UTC;
  every other object is a zone that changes from +02:00 to +01:00 when its wall clock
  reaches 03:00 on 2024-10-27, so that the readings from 02:00 to 03:00 of that day
  occur twice and \<^verbatim>\<open>fold\<close> tells them apart.\<close>

definition tz_utc :: tzenv where
  "tz_utc z w f = 0"

definition tz_dst :: tzenv where
  "tz_dst z w f =
     (if z = 0 then 0
      else if w < 63865591200000000 then 7200000000
      else if w < 63865594800000000 \<and> \<not> f then 7200000000
      else 3600000000)"

section \<open>A night used in the examples\<close>

text \<open>Three entries in UTC on 2024-06-01: in bed from 23:00:00 to 23:01:00, deep sleep
  from 23:01:00 to 23:01:30, awake from 23:02:00 to 23:03:00; the timeline and the
  summary that the program computes for them.\<close>

definition example_first :: "unit SleepEntry" where
  "example_first =
     \<lparr>Source = ''watch'', Qty = (),
        StartDate = \<lparr>wall = 63852879600000000, fold_dt = False, tzinfo = 0\<rparr>,
        Value = ''InBed'', EndDate = \<lparr>wall = 63852879660000000, fold_dt = False, tzinfo = 0\<rparr>\<rparr>"

definition example_rest :: "unit SleepEntry list" where
  "example_rest =
     [\<lparr>Source = ''watch'', Qty = (),
        StartDate = \<lparr>wall = 63852879660000000, fold_dt = False, tzinfo = 0\<rparr>,
        Value = ''Deep'', EndDate = \<lparr>wall = 63852879690000000, fold_dt = False, tzinfo = 0\<rparr>\<rparr>,
      \<lparr>Source = ''watch'', Qty = (),
        StartDate = \<lparr>wall = 63852879720000000, fold_dt = False, tzinfo = 0\<rparr>,
        Value = ''Awake'', EndDate = \<lparr>wall = 63852879780000000, fold_dt = False, tzinfo = 0\<rparr>\<rparr>]"

definition example_timeline :: "SleepSegment list" where
  "example_timeline =
     [\<lparr>Start = \<lparr>wall = 63852879600000000, fold_dt = False, tzinfo = 0\<rparr>, Stage = WAKE\<rparr>,
      \<lparr>Start = \<lparr>wall = 63852879630000000, fold_dt = False, tzinfo = 0\<rparr>, Stage = WAKE\<rparr>,
      \<lparr>Start = \<lparr>wall = 63852879660000000, fold_dt = False, tzinfo = 0\<rparr>, Stage = Deep\<rparr>,
      \<lparr>Start = \<lparr>wall = 63852879690000000, fold_dt = False, tzinfo = 0\<rparr>, Stage = Deep\<rparr>,
      \<lparr>Start = \<lparr>wall = 63852879720000000, fold_dt = False, tzinfo = 0\<rparr>, Stage = WAKE\<rparr>,
      \<lparr>Start = \<lparr>wall = 63852879750000000, fold_dt = False, tzinfo = 0\<rparr>, Stage = WAKE\<rparr>]"

definition example_summary :: OutputData where
  "example_summary =
     \<lparr>Type = ''night'', StartTime = 63852879600, StopTime = 63852879780,
      SleepDuration = ''0:03:00'', SleepOnsetDuration = ''0:01:00'',
      LightSleepDuration = ''0:00:00'', DeepSleepDuration = ''0:01:00'',
      REMDuration = ''0:00:00'', WakeAfterSleepOnsetDuration = ''0:01:00'',
      NumberOfAwakenings = 1, PositionChanges = 0, MeanHeartRate = 0,
      MeanRespirationCPM = 0, NumberOfStimulations = 0, SleepEfficiency = 0,
      Hypnogram = ''[WAKE,WAKE,Deep,Deep,WAKE,WAKE]''\<rparr>"

section \<open>Properties of the timeline builder\<close>

lemma ceil_div_bounds:
  fixes a D :: int
  assumes "0 < D"
  shows "a \<le> D * (- ((- a) div D))" and "D * (- ((- a) div D) - 1) < a"
proof -
  define x where "x = (- a) div D"
  have eq: "D * x + (- a) mod D = - a" unfolding x_def by simp
  have r: "0 \<le> (- a) mod D" "(- a) mod D < D" using assms by simp_all
  have m1: "D * (- x) = - (D * x)" by simp
  have m2: "D * (- x - 1) = - (D * x) - D" by (simp add: algebra_simps)
  show "a \<le> D * (- ((- a) div D))" unfolding x_def [symmetric] m1 using eq r by linarith
  show "D * (- ((- a) div D) - 1) < a" unfolding x_def [symmetric] m2 using eq r by linarith
qed

lemma wake_slots_Suc:
  assumes "dt_add c (td_seconds 30) = Inr c'"
  shows "wake_slots c (Suc n) = \<lparr>Start = c, Stage = WAKE\<rparr> # wake_slots c' n"
proof -
  from assms have c': "c' = \<lparr>wall = wall c + td_seconds 30, fold_dt = False, tzinfo = tzinfo c\<rparr>"
    by (auto simp: dt_add_def split: if_splits)
  have "slot_start c (Suc k) = slot_start c' k" for k
    by (simp add: slot_start_def c' algebra_simps)
  then have "map (\<lambda>k. \<lparr>Start = slot_start c k, Stage = WAKE\<rparr>) (map Suc [0 ..< n])
           = map (\<lambda>k. \<lparr>Start = slot_start c' k, Stage = WAKE\<rparr>) [0 ..< n]"
    by (simp add: comp_def)
  then show ?thesis
    unfolding wake_slots_def upt_conv_Cons [OF zero_less_Suc] map_Suc_upt [symmetric]
    by (simp add: slot_start_def)
qed

lemma create_30s_segments_linear:
  assumes lin: "\<And>w f. dt_lt Z \<lparr>wall = w, fold_dt = f, tzinfo = z\<rparr> end_time \<longleftrightarrow> w < K"
  shows "tzinfo c = z \<Longrightarrow> 0 \<le> wall c \<Longrightarrow> K - wall c \<le> td_seconds 30 * int n \<Longrightarrow>
         td_seconds 30 * (int n - 1) < K - wall c \<or> n = 0 \<Longrightarrow>
         create_30s_segments Z c end_time =
           (if n = 0 \<or> wall c + td_seconds 30 * int n \<le> max_wall
            then Inr (wake_slots c n) else Inl OverflowError)"
proof (induction n arbitrary: c)
  case 0
  have "c = \<lparr>wall = wall c, fold_dt = fold_dt c, tzinfo = z\<rparr>" using "0.prems"(1) by simp
  then have "dt_lt Z c end_time \<longleftrightarrow> wall c < K" using lin [of "wall c" "fold_dt c"] by simp
  with "0.prems" show ?case
    by (subst create_30s_segments.simps) (simp add: wake_slots_def)
next
  case (Suc n)
  have D: "0 < td_seconds 30" by (simp add: td_seconds_def)
  have "c = \<lparr>wall = wall c, fold_dt = fold_dt c, tzinfo = z\<rparr>" using Suc.prems(1) by simp
  then have "dt_lt Z c end_time \<longleftrightarrow> wall c < K" using lin [of "wall c" "fold_dt c"] by simp
  moreover have "wall c < K"
  proof -
    from Suc.prems(4) have "td_seconds 30 * int n < K - wall c" by simp
    moreover have "0 \<le> td_seconds 30 * int n" using D by simp
    ultimately show ?thesis by linarith
  qed
  ultimately have lt: "dt_lt Z c end_time" by simp
  show ?case
  proof (cases "wall c + td_seconds 30 \<le> max_wall")
    case False
    then have add: "dt_add c (td_seconds 30) = Inl OverflowError" by (simp add: dt_add_def)
    have "0 \<le> td_seconds 30 * int n" using D by simp
    with False have "\<not> wall c + td_seconds 30 * int (Suc n) \<le> max_wall"
      by (simp add: algebra_simps)
    with lt add show ?thesis by (subst create_30s_segments.simps) simp
  next
    case True
    define c' where "c' = \<lparr>wall = wall c + td_seconds 30, fold_dt = False, tzinfo = tzinfo c\<rparr>"
    have add: "dt_add c (td_seconds 30) = Inr c'"
      using True D Suc.prems(2) by (simp add: dt_add_def c'_def)
    have p1: "tzinfo c' = z" using Suc.prems(1) by (simp add: c'_def)
    have p2: "0 \<le> wall c'" using D Suc.prems(2) by (simp add: c'_def)
    have p3: "K - wall c' \<le> td_seconds 30 * int n"
      using Suc.prems(3) by (simp add: c'_def algebra_simps)
    have p4: "td_seconds 30 * (int n - 1) < K - wall c' \<or> n = 0"
      using Suc.prems(4) by (simp add: c'_def algebra_simps)
    have IH: "create_30s_segments Z c' end_time =
           (if n = 0 \<or> wall c' + td_seconds 30 * int n \<le> max_wall
            then Inr (wake_slots c' n) else Inl OverflowError)"
      by (rule Suc.IH [OF p1 p2 p3 p4])
    have w: "wall c' + td_seconds 30 * int n = wall c + td_seconds 30 * int (Suc n)"
      by (simp add: c'_def algebra_simps)
    have n0: "n = 0 \<Longrightarrow> wall c + td_seconds 30 * int (Suc n) \<le> max_wall"
      using True by simp
    show ?thesis
      using lt add IH n0 unfolding w
      by (subst create_30s_segments.simps) (auto simp: wake_slots_Suc [OF add])
  qed
qed

lemma dt_lt_linear:
  assumes "tzinfo start_time = tzinfo end_time
           \<or> (\<forall>w f. Z (tzinfo start_time) w f = utcoffset Z start_time)"
  shows "dt_lt Z \<lparr>wall = w, fold_dt = f, tzinfo = tzinfo start_time\<rparr> end_time
           \<longleftrightarrow> w < wall start_time + dt_sub Z end_time start_time"
proof (cases "tzinfo start_time = tzinfo end_time")
  case True
  then show ?thesis by (simp add: dt_lt_def dt_sub_def)
next
  case False
  with assms have "Z (tzinfo start_time) w f = utcoffset Z start_time" by simp
  with False show ?thesis by (auto simp: dt_lt_def dt_sub_def utcoffset_def)
qed

lemma create_30s_segments_span:
  assumes "0 \<le> wall start_time"
      and "dt_le Z start_time end_time"
      and "tzinfo start_time = tzinfo end_time
           \<or> (\<forall>w f. Z (tzinfo start_time) w f = utcoffset Z start_time)"
  shows "0 \<le> - ((- dt_sub Z end_time start_time) div td_seconds 30)"
    and "create_30s_segments Z start_time end_time =
           (if nat (- ((- dt_sub Z end_time start_time) div td_seconds 30)) = 0
               \<or> wall start_time
                    + td_seconds 30 * (- ((- dt_sub Z end_time start_time) div td_seconds 30))
                  \<le> max_wall
            then Inr (wake_slots start_time
                        (nat (- ((- dt_sub Z end_time start_time) div td_seconds 30))))
            else Inl OverflowError)"
proof -
  define a where "a = dt_sub Z end_time start_time"
  define q where "q = - ((- a) div td_seconds 30)"
  have D: "0 < td_seconds 30" by (simp add: td_seconds_def)
  have a0: "0 \<le> a"
    using assms(2) by (auto simp: a_def dt_le_def dt_sub_def split: if_splits)
  have b1: "a \<le> td_seconds 30 * q" and b2: "td_seconds 30 * (q - 1) < a"
    unfolding q_def using ceil_div_bounds [OF D, of a] by simp_all
  have q0: "0 \<le> q"
  proof (rule ccontr)
    assume "\<not> 0 \<le> q"
    then have "q \<le> - 1" by simp
    then have "td_seconds 30 * q \<le> td_seconds 30 * (- 1)" using D by (intro mult_left_mono) simp_all
    with b1 a0 D show False by simp
  qed
  show "0 \<le> - ((- dt_sub Z end_time start_time) div td_seconds 30)"
    using q0 unfolding q_def a_def .
  have lin: "\<And>w f. dt_lt Z \<lparr>wall = w, fold_dt = f, tzinfo = tzinfo start_time\<rparr> end_time
              \<longleftrightarrow> w < wall start_time + a"
    unfolding a_def by (rule dt_lt_linear [OF assms(3)])
  have "create_30s_segments Z start_time end_time =
           (if nat q = 0 \<or> wall start_time + td_seconds 30 * int (nat q) \<le> max_wall
            then Inr (wake_slots start_time (nat q)) else Inl OverflowError)"
  proof (rule create_30s_segments_linear [where K = "wall start_time + a" and z = "tzinfo start_time"])
    show "\<And>w f. dt_lt Z \<lparr>wall = w, fold_dt = f, tzinfo = tzinfo start_time\<rparr> end_time
              \<longleftrightarrow> w < wall start_time + a" by (rule lin)
    show "tzinfo start_time = tzinfo start_time" by simp
    show "0 \<le> wall start_time" by (rule assms(1))
    show "wall start_time + a - wall start_time \<le> td_seconds 30 * int (nat q)"
      using b1 q0 by simp
    show "td_seconds 30 * (int (nat q) - 1) < wall start_time + a - wall start_time \<or> nat q = 0"
      using b2 q0 by simp
  qed
  then show "create_30s_segments Z start_time end_time =
           (if nat (- ((- dt_sub Z end_time start_time) div td_seconds 30)) = 0
               \<or> wall start_time
                    + td_seconds 30 * (- ((- dt_sub Z end_time start_time) div td_seconds 30))
                  \<le> max_wall
            then Inr (wake_slots start_time
                        (nat (- ((- dt_sub Z end_time start_time) div td_seconds 30))))
            else Inl OverflowError)"
    using q0 unfolding q_def a_def by simp
qed

lemma create_30s_segments_length:
  assumes "0 \<le> wall start_time"
      and "dt_le Z start_time end_time"
      and "tzinfo start_time = tzinfo end_time
           \<or> (\<forall>w f. Z (tzinfo start_time) w f = utcoffset Z start_time)"
      and "create_30s_segments Z start_time end_time = Inr segments"
  shows "int (length segments) = - ((- dt_sub Z end_time start_time) div td_seconds 30)"
proof -
  from assms(4) create_30s_segments_span(2) [OF assms(1-3)]
  have "segments = wake_slots start_time
                     (nat (- ((- dt_sub Z end_time start_time) div td_seconds 30)))"
    by (simp split: if_splits)
  then show ?thesis
    using create_30s_segments_span(1) [OF assms(1-3)] by (simp add: wake_slots_def)
qed

text \<open>
  C2 (as the code has it). Let \<open>start \<le> end\<close>, and let either both refer to the same zone
  object, or the zone of \<open>start\<close> have a fixed offset. Then the builder aims at the ceiling
  of the span over thirty seconds in every case: a final partial period gets a slot of
  its own and is not dropped. If the last slot's start plus thirty seconds is still
  within the calendar (or there is no slot at all), it returns exactly that many slots,
  all WAKE, slot \<open>k\<close> starting \<open>k\<close> times thirty seconds after \<open>start\<close>; otherwise it raises
  \<^verbatim>\<open>OverflowError\<close> and returns nothing.
\<close>

theorem create_30s_segments_count:
  assumes "0 \<le> wall start_time"
      and "dt_le Z start_time end_time"
      and "tzinfo start_time = tzinfo end_time
           \<or> (\<forall>w f. Z (tzinfo start_time) w f = utcoffset Z start_time)"
  shows "create_30s_segments Z start_time end_time =
           (if nat (- ((- dt_sub Z end_time start_time) div td_seconds 30)) = 0
               \<or> wall start_time
                    + td_seconds 30 * (- ((- dt_sub Z end_time start_time) div td_seconds 30))
                  \<le> max_wall
            then Inr (map (\<lambda>k. \<lparr>Start = slot_start start_time k, Stage = WAKE\<rparr>)
                        [0 ..< nat (- ((- dt_sub Z end_time start_time) div td_seconds 30))])
            else Inl OverflowError)"
  using create_30s_segments_span(2) [OF assms] unfolding wake_slots_def .

theorem create_30s_segments_count_witness:
  "0 \<le> wall \<lparr>wall = 0, fold_dt = False, tzinfo = 0\<rparr>
   \<and> dt_le tz_utc \<lparr>wall = 0, fold_dt = False, tzinfo = 0\<rparr>
                   \<lparr>wall = 45000000, fold_dt = False, tzinfo = 0\<rparr>
   \<and> create_30s_segments tz_utc \<lparr>wall = 0, fold_dt = False, tzinfo = 0\<rparr>
                                 \<lparr>wall = 45000000, fold_dt = False, tzinfo = 0\<rparr>
       = Inr [\<lparr>Start = \<lparr>wall = 0, fold_dt = False, tzinfo = 0\<rparr>, Stage = WAKE\<rparr>,
              \<lparr>Start = \<lparr>wall = 30000000, fold_dt = False, tzinfo = 0\<rparr>, Stage = WAKE\<rparr>]"
proof -
  have h1: "0 \<le> wall \<lparr>wall = 0, fold_dt = False, tzinfo = 0\<rparr>" by simp
  have h2: "dt_le tz_utc \<lparr>wall = 0, fold_dt = False, tzinfo = 0\<rparr>
                   \<lparr>wall = 45000000, fold_dt = False, tzinfo = 0\<rparr>"
    by (simp add: dt_le_def dt_sub_def)
  have h3: "tzinfo \<lparr>wall = 0, fold_dt = False, tzinfo = 0\<rparr>
              = tzinfo \<lparr>wall = 45000000, fold_dt = False, tzinfo = 0\<rparr>
            \<or> (\<forall>w f. tz_utc (tzinfo \<lparr>wall = 0, fold_dt = False, tzinfo = 0\<rparr>) w f
                        = utcoffset tz_utc \<lparr>wall = 0, fold_dt = False, tzinfo = 0\<rparr>)"
    by simp
  have u: "[0 ..< 2] = [0, Suc 0]" by (simp add: upt_rec)
  from create_30s_segments_count [OF h1 h2 h3] show ?thesis
    using h2 by (simp add: dt_sub_def td_seconds_def max_wall_def slot_start_def u)
qed

text \<open>
  C2 as the specification words it fails where the span is not a multiple of thirty
  seconds: a span of 45 seconds has slots at 0 and 30 seconds, where the specification
  counts one.
\<close>

theorem create_30s_segments_count_counterexample:
  "dt_le tz_utc \<lparr>wall = 0, fold_dt = False, tzinfo = 0\<rparr>
                 \<lparr>wall = 45000000, fold_dt = False, tzinfo = 0\<rparr>
   \<and> create_30s_segments tz_utc \<lparr>wall = 0, fold_dt = False, tzinfo = 0\<rparr>
                                 \<lparr>wall = 45000000, fold_dt = False, tzinfo = 0\<rparr>
       = Inr [\<lparr>Start = \<lparr>wall = 0, fold_dt = False, tzinfo = 0\<rparr>, Stage = WAKE\<rparr>,
              \<lparr>Start = \<lparr>wall = 30000000, fold_dt = False, tzinfo = 0\<rparr>, Stage = WAKE\<rparr>]
   \<and> spec_slot_count (dt_sub tz_utc \<lparr>wall = 45000000, fold_dt = False, tzinfo = 0\<rparr>
                                      \<lparr>wall = 0, fold_dt = False, tzinfo = 0\<rparr>) = 1"
  by code_simp

text \<open>
  Why the two provisos are there. From 9999-12-31T23:59:45 to 23:59:59 the loop appends
  one slot and then fails to advance. In a zone with daylight saving time, from
  02:59:00 (+02:00) to 03:00:30 (+01:00) on 2024-10-27 with both ends referring to one
  zone object, the wall clocks are compared: the span is 90 seconds and there are three
  slots. With the same instant as the end but in UTC, the span is 90 seconds as well,
  and yet there are only two slots: the third would start at 03:00:00, which that zone
  reads as +01:00, an hour after the end.
\<close>

lemma create_30s_segments_overflow_example:
  "dt_le tz_utc \<lparr>wall = 315537897585000000, fold_dt = False, tzinfo = 0\<rparr>
                 \<lparr>wall = 315537897599000000, fold_dt = False, tzinfo = 0\<rparr>
   \<and> create_30s_segments tz_utc \<lparr>wall = 315537897585000000, fold_dt = False, tzinfo = 0\<rparr>
                                 \<lparr>wall = 315537897599000000, fold_dt = False, tzinfo = 0\<rparr>
       = Inl OverflowError"
  by code_simp

lemma create_30s_segments_dst_shared_example:
  "dt_sub tz_dst \<lparr>wall = 63865594830000000, fold_dt = False, tzinfo = 1\<rparr>
                  \<lparr>wall = 63865594740000000, fold_dt = False, tzinfo = 1\<rparr> = td_seconds 90
   \<and> create_30s_segments tz_dst \<lparr>wall = 63865594740000000, fold_dt = False, tzinfo = 1\<rparr>
                                 \<lparr>wall = 63865594830000000, fold_dt = False, tzinfo = 1\<rparr>
       = Inr [\<lparr>Start = \<lparr>wall = 63865594740000000, fold_dt = False, tzinfo = 1\<rparr>, Stage = WAKE\<rparr>,
              \<lparr>Start = \<lparr>wall = 63865594770000000, fold_dt = False, tzinfo = 1\<rparr>, Stage = WAKE\<rparr>,
              \<lparr>Start = \<lparr>wall = 63865594800000000, fold_dt = False, tzinfo = 1\<rparr>, Stage = WAKE\<rparr>]"
  by code_simp

lemma create_30s_segments_dst_distinct_example:
  "dt_sub tz_dst \<lparr>wall = 63865587630000000, fold_dt = False, tzinfo = 0\<rparr>
                  \<lparr>wall = 63865594740000000, fold_dt = False, tzinfo = 1\<rparr> = td_seconds 90
   \<and> create_30s_segments tz_dst \<lparr>wall = 63865594740000000, fold_dt = False, tzinfo = 1\<rparr>
                                 \<lparr>wall = 63865587630000000, fold_dt = False, tzinfo = 0\<rparr>
       = Inr [\<lparr>Start = \<lparr>wall = 63865594740000000, fold_dt = False, tzinfo = 1\<rparr>, Stage = WAKE\<rparr>,
              \<lparr>Start = \<lparr>wall = 63865594770000000, fold_dt = False, tzinfo = 1\<rparr>, Stage = WAKE\<rparr>]"
  by code_simp

section \<open>Properties of the overlay\<close>

lemma update_segment_Start [simp]: "Start (update_segment Z e s) = Start s"
  by (simp add: update_segment_def)

lemma update_segment_not_wake: "Stage s \<noteq> WAKE \<Longrightarrow> update_segment Z e s = s"
  by (simp add: update_segment_def)

lemma update_segments_map:
  "update_segments_with_sleep_data Z segs es = map (\<lambda>s. fold (update_segment Z) es s) segs"
  by (induction es arbitrary: segs) (simp_all add: comp_def)

lemma update_segments_length [simp]:
  "length (update_segments_with_sleep_data Z segs es) = length segs"
  by (simp add: update_segments_map)

lemma update_segments_append:
  "update_segments_with_sleep_data Z segs (es @ es') =
     update_segments_with_sleep_data Z (update_segments_with_sleep_data Z segs es) es'"
  by (induction es arbitrary: segs) simp_all

lemma fold_update_segment_Start [simp]: "Start (fold (update_segment Z) es s) = Start s"
  by (induction es arbitrary: s) simp_all

lemma update_segments_Start [simp]:
  "map Start (update_segments_with_sleep_data Z segs es) = map Start segs"
  by (simp add: update_segments_map comp_def)

lemma fold_update_segment_not_wake:
  "Stage s \<noteq> WAKE \<Longrightarrow> fold (update_segment Z) es s = s"
  by (induction es arbitrary: s) (simp_all add: update_segment_not_wake)

lemma fold_update_segment_wake:
  "Stage s = WAKE \<Longrightarrow>
   Stage (fold (update_segment Z) es s) =
     (case find (\<lambda>e. dt_le Z (StartDate e) (Start s)
                     \<and> dt_le Z (Start s) (EndDate e)
                     \<and> map_sleep_stage (Value e) \<noteq> WAKE) es of
        None \<Rightarrow> WAKE
      | Some e \<Rightarrow> map_sleep_stage (Value e))"
proof (induction es arbitrary: s)
  case Nil
  then show ?case by simp
next
  case (Cons e es)
  show ?case
  proof (cases "dt_le Z (StartDate e) (Start s)
                     \<and> dt_le Z (Start s) (EndDate e)
                     \<and> map_sleep_stage (Value e) \<noteq> WAKE")
    case True
    with Cons.prems have us: "Stage (update_segment Z e s) = map_sleep_stage (Value e)"
      by (simp add: update_segment_def)
    with True have "Stage (update_segment Z e s) \<noteq> WAKE" by simp
    then have "fold (update_segment Z) es (update_segment Z e s) = update_segment Z e s"
      by (rule fold_update_segment_not_wake)
    with True us show ?thesis by simp
  next
    case False
    with Cons.prems have st: "Stage (update_segment Z e s) = WAKE"
      by (auto simp: update_segment_def)
    from Cons.IH [OF st] False show ?thesis by auto
  qed
qed

text \<open>
  C3. After the overlay the slots are the same in number and start; a slot that was not
  WAKE keeps its stage; a slot that was WAKE takes the mapped stage of the first entry,
  in processing order, that covers its start (both ends inclusive) and maps to a stage
  other than WAKE, and stays WAKE when there is none. Hence a slot that has a stage
  other than WAKE is never changed by entries processed later.
\<close>

theorem update_segments_first_writer_wins:
  "length (update_segments_with_sleep_data Z segments sleep_data) = length segments
   \<and> (\<forall>i < length segments.
        Start (update_segments_with_sleep_data Z segments sleep_data ! i) = Start (segments ! i)
      \<and> Stage (update_segments_with_sleep_data Z segments sleep_data ! i) =
          (if Stage (segments ! i) \<noteq> WAKE then Stage (segments ! i)
           else case find (\<lambda>entry. dt_le Z (StartDate entry) (Start (segments ! i))
                                  \<and> dt_le Z (Start (segments ! i)) (EndDate entry)
                                  \<and> map_sleep_stage (Value entry) \<noteq> WAKE) sleep_data of
                  None \<Rightarrow> WAKE
                | Some entry \<Rightarrow> map_sleep_stage (Value entry))
      \<and> (Stage (update_segments_with_sleep_data Z segments sleep_data ! i) \<noteq> WAKE \<longrightarrow>
           update_segments_with_sleep_data Z segments (sleep_data @ later) ! i =
           update_segments_with_sleep_data Z segments sleep_data ! i))"
proof (intro conjI allI impI)
  show "length (update_segments_with_sleep_data Z segments sleep_data) = length segments"
    by simp
next
  fix i assume i: "i < length segments"
  show "Start (update_segments_with_sleep_data Z segments sleep_data ! i) = Start (segments ! i)"
    using i by (simp add: update_segments_map)
  show "Stage (update_segments_with_sleep_data Z segments sleep_data ! i) =
          (if Stage (segments ! i) \<noteq> WAKE then Stage (segments ! i)
           else case find (\<lambda>entry. dt_le Z (StartDate entry) (Start (segments ! i))
                                  \<and> dt_le Z (Start (segments ! i)) (EndDate entry)
                                  \<and> map_sleep_stage (Value entry) \<noteq> WAKE) sleep_data of
                  None \<Rightarrow> WAKE
                | Some entry \<Rightarrow> map_sleep_stage (Value entry))"
    using i by (simp add: update_segments_map fold_update_segment_not_wake fold_update_segment_wake)
  assume nw: "Stage (update_segments_with_sleep_data Z segments sleep_data ! i) \<noteq> WAKE"
  have "update_segments_with_sleep_data Z segments (sleep_data @ later) ! i =
        fold (update_segment Z) later (update_segments_with_sleep_data Z segments sleep_data ! i)"
    using i by (simp add: update_segments_append)
       (simp add: update_segments_map [of Z "update_segments_with_sleep_data Z segments sleep_data"])
  with nw show "update_segments_with_sleep_data Z segments (sleep_data @ later) ! i =
           update_segments_with_sleep_data Z segments sleep_data ! i"
    by (simp add: fold_update_segment_not_wake)
qed

theorem update_segments_first_writer_wins_witness:
  "update_segments_with_sleep_data tz_utc
     [\<lparr>Start = \<lparr>wall = 0, fold_dt = False, tzinfo = 0\<rparr>, Stage = WAKE\<rparr>,
      \<lparr>Start = \<lparr>wall = 30000000, fold_dt = False, tzinfo = 0\<rparr>, Stage = WAKE\<rparr>]
     ([\<lparr>Source = ''w'', Qty = (), StartDate = \<lparr>wall = 0, fold_dt = False, tzinfo = 0\<rparr>,
        Value = ''Deep'', EndDate = \<lparr>wall = 0, fold_dt = False, tzinfo = 0\<rparr>\<rparr>]
      @ [\<lparr>Source = ''w'', Qty = (), StartDate = \<lparr>wall = 0, fold_dt = False, tzinfo = 0\<rparr>,
          Value = ''REM'', EndDate = \<lparr>wall = 30000000, fold_dt = False, tzinfo = 0\<rparr>\<rparr>]) ! 0
   = \<lparr>Start = \<lparr>wall = 0, fold_dt = False, tzinfo = 0\<rparr>, Stage = Deep\<rparr>"
  using update_segments_first_writer_wins
    [of tz_utc
        "[\<lparr>Start = \<lparr>wall = 0, fold_dt = False, tzinfo = 0\<rparr>, Stage = WAKE\<rparr>,
          \<lparr>Start = \<lparr>wall = 30000000, fold_dt = False, tzinfo = 0\<rparr>, Stage = WAKE\<rparr>]"
        "[\<lparr>Source = ''w'', Qty = (), StartDate = \<lparr>wall = 0, fold_dt = False, tzinfo = 0\<rparr>,
           Value = ''Deep'', EndDate = \<lparr>wall = 0, fold_dt = False, tzinfo = 0\<rparr>\<rparr>]"
        "[\<lparr>Source = ''w'', Qty = (), StartDate = \<lparr>wall = 0, fold_dt = False, tzinfo = 0\<rparr>,
           Value = ''REM'', EndDate = \<lparr>wall = 30000000, fold_dt = False, tzinfo = 0\<rparr>\<rparr>]"]
  by (simp add: update_segment_def map_sleep_stage_def dt_le_def dt_sub_def)

section \<open>Properties of the stage durations\<close>

lemma sum5_add_segment: "sum5 (add_segment s d) = sum5 d + td_seconds 30"
  by (cases "Stage s") (simp_all add: sum5_def add_segment_def)

lemma sum5_fold:
  "sum5 (fold add_segment segs d) = sum5 d + td_seconds 30 * int (length segs)"
  by (induction segs arbitrary: d) (simp_all add: sum5_add_segment algebra_simps)

lemma fold_add_segment_count:
  "fold add_segment segs d st =
     d st + td_seconds 30 * int (length (filter (\<lambda>s. Stage s = st) segs))"
  by (induction segs arbitrary: d) (simp_all add: add_segment_def algebra_simps)

lemma stage_durations_count:
  "stage_durations segs st = td_seconds 30 * int (length (filter (\<lambda>s. Stage s = st) segs))"
  by (simp add: stage_durations_def fold_add_segment_count)

lemma sum5_stage_durations:
  "sum5 (stage_durations segs) = td_seconds 30 * int (length segs)"
  unfolding stage_durations_def sum5_fold by (simp add: sum5_def)

text \<open>
  C1 (as the code has it). Let \<open>start \<le> end\<close>, let either both refer to the same zone
  object or the zone of \<open>start\<close> have a fixed offset, and let the builder return a
  timeline. Then, whatever entries are overlaid, each per-stage duration is thirty
  seconds times the number of slots with that stage, the five durations add up to thirty
  seconds times the number of slots, and that total is the span rounded up (not down) to
  a multiple of thirty seconds.
\<close>

theorem stage_durations_total:
  assumes "0 \<le> wall start_time"
      and "dt_le Z start_time end_time"
      and "tzinfo start_time = tzinfo end_time
           \<or> (\<forall>w f. Z (tzinfo start_time) w f = utcoffset Z start_time)"
      and "create_30s_segments Z start_time end_time = Inr segments"
  shows "sum5 (stage_durations (update_segments_with_sleep_data Z segments sleep_data))
           = td_seconds 30 * int (length segments)
       \<and> (\<forall>st. stage_durations (update_segments_with_sleep_data Z segments sleep_data) st
               = td_seconds 30 *
                 int (length (filter (\<lambda>segment. Stage segment = st)
                        (update_segments_with_sleep_data Z segments sleep_data))))
       \<and> td_seconds 30 * int (length segments)
           = spec_span_rounded_up (dt_sub Z end_time start_time)"
  using create_30s_segments_length [OF assms]
  by (simp add: sum5_stage_durations stage_durations_count spec_span_rounded_up_def)

theorem stage_durations_total_witness:
  "0 \<le> wall \<lparr>wall = 0, fold_dt = False, tzinfo = 0\<rparr>
   \<and> dt_le tz_utc \<lparr>wall = 0, fold_dt = False, tzinfo = 0\<rparr>
                   \<lparr>wall = 45000000, fold_dt = False, tzinfo = 0\<rparr>
   \<and> create_30s_segments tz_utc \<lparr>wall = 0, fold_dt = False, tzinfo = 0\<rparr>
                                 \<lparr>wall = 45000000, fold_dt = False, tzinfo = 0\<rparr>
       = Inr [\<lparr>Start = \<lparr>wall = 0, fold_dt = False, tzinfo = 0\<rparr>, Stage = WAKE\<rparr>,
              \<lparr>Start = \<lparr>wall = 30000000, fold_dt = False, tzinfo = 0\<rparr>, Stage = WAKE\<rparr>]
   \<and> sum5 (stage_durations
              (update_segments_with_sleep_data tz_utc
                 [\<lparr>Start = \<lparr>wall = 0, fold_dt = False, tzinfo = 0\<rparr>, Stage = WAKE\<rparr>,
                  \<lparr>Start = \<lparr>wall = 30000000, fold_dt = False, tzinfo = 0\<rparr>, Stage = WAKE\<rparr>]
                 [\<lparr>Source = ''w'', Qty = (), StartDate = \<lparr>wall = 0, fold_dt = False, tzinfo = 0\<rparr>,
                   Value = ''Deep'', EndDate = \<lparr>wall = 45000000, fold_dt = False, tzinfo = 0\<rparr>\<rparr>]))
       = 60000000"
proof -
  have h1: "0 \<le> wall \<lparr>wall = 0, fold_dt = False, tzinfo = 0\<rparr>" by simp
  have h2: "dt_le tz_utc \<lparr>wall = 0, fold_dt = False, tzinfo = 0\<rparr>
                   \<lparr>wall = 45000000, fold_dt = False, tzinfo = 0\<rparr>"
    by (simp add: dt_le_def dt_sub_def)
  have h3: "tzinfo \<lparr>wall = 0, fold_dt = False, tzinfo = 0\<rparr>
              = tzinfo \<lparr>wall = 45000000, fold_dt = False, tzinfo = 0\<rparr>
            \<or> (\<forall>w f. tz_utc (tzinfo \<lparr>wall = 0, fold_dt = False, tzinfo = 0\<rparr>) w f
                        = utcoffset tz_utc \<lparr>wall = 0, fold_dt = False, tzinfo = 0\<rparr>)"
    by simp
  have h4: "create_30s_segments tz_utc \<lparr>wall = 0, fold_dt = False, tzinfo = 0\<rparr>
                                 \<lparr>wall = 45000000, fold_dt = False, tzinfo = 0\<rparr>
       = Inr [\<lparr>Start = \<lparr>wall = 0, fold_dt = False, tzinfo = 0\<rparr>, Stage = WAKE\<rparr>,
              \<lparr>Start = \<lparr>wall = 30000000, fold_dt = False, tzinfo = 0\<rparr>, Stage = WAKE\<rparr>]"
    by code_simp
  from stage_durations_total
         [where sleep_data = "[\<lparr>Source = ''w'', Qty = (),
                  StartDate = \<lparr>wall = 0, fold_dt = False, tzinfo = 0\<rparr>, Value = ''Deep'',
                  EndDate = \<lparr>wall = 45000000, fold_dt = False, tzinfo = 0\<rparr>\<rparr>]",
          OF h1 h2 h3 h4]
  show ?thesis
    using h2 h4 by (simp add: td_seconds_def)
qed

text \<open>
  C1 as the specification words it fails where the span is not a multiple of thirty
  seconds: over a span of 45 seconds the durations add up to 60 seconds, while the span
  rounded down is 30 seconds.
\<close>

theorem stage_durations_total_counterexample:
  "dt_le tz_utc \<lparr>wall = 0, fold_dt = False, tzinfo = 0\<rparr>
                 \<lparr>wall = 45000000, fold_dt = False, tzinfo = 0\<rparr>
   \<and> create_30s_segments tz_utc \<lparr>wall = 0, fold_dt = False, tzinfo = 0\<rparr>
                                 \<lparr>wall = 45000000, fold_dt = False, tzinfo = 0\<rparr>
       = Inr [\<lparr>Start = \<lparr>wall = 0, fold_dt = False, tzinfo = 0\<rparr>, Stage = WAKE\<rparr>,
              \<lparr>Start = \<lparr>wall = 30000000, fold_dt = False, tzinfo = 0\<rparr>, Stage = WAKE\<rparr>]
   \<and> sum5 (stage_durations
              (update_segments_with_sleep_data tz_utc
                 [\<lparr>Start = \<lparr>wall = 0, fold_dt = False, tzinfo = 0\<rparr>, Stage = WAKE\<rparr>,
                  \<lparr>Start = \<lparr>wall = 30000000, fold_dt = False, tzinfo = 0\<rparr>, Stage = WAKE\<rparr>]
                 [\<lparr>Source = ''w'', Qty = (), StartDate = \<lparr>wall = 0, fold_dt = False, tzinfo = 0\<rparr>,
                   Value = ''Deep'', EndDate = \<lparr>wall = 45000000, fold_dt = False, tzinfo = 0\<rparr>\<rparr>]))
       = td_seconds 60
   \<and> spec_span_rounded_down (dt_sub tz_utc \<lparr>wall = 45000000, fold_dt = False, tzinfo = 0\<rparr>
                                             \<lparr>wall = 0, fold_dt = False, tzinfo = 0\<rparr>)
       = td_seconds 30"
  by code_simp

section \<open>Properties of the awakening count\<close>

lemma zip_drop1:
  "zip xs (drop 1 xs) = map (\<lambda>i. (xs ! i, xs ! Suc i)) [0 ..< length xs - 1]"
  by (rule nth_equalityI) auto

lemma num_awakenings_index: "num_awakenings segs = spec_awakenings segs"
  unfolding num_awakenings_def spec_awakenings_def zip_drop1 filter_map length_map comp_def
  by simp

lemma num_awakenings_all_wake:
  "list_all (\<lambda>s. Stage s = WAKE) segs \<Longrightarrow> num_awakenings segs = 0"
  unfolding num_awakenings_def list_all_iff
  by (auto simp: filter_empty_conv dest: set_zip_leftD)

section \<open>Whole seconds of a duration\<close>

lemma round_half_even_exact:
  assumes "0 < q"
  shows "round_half_even (m * q) q = m"
  using assms by (simp add: round_half_even_def)


lemma bitlen_le_of_less_power:
  assumes "0 < x" "x < 2 ^ m"
  shows "bitlen x \<le> int m"
proof -
  from bitlen_bounds [OF assms(1)] have le: "(2::int) ^ nat (bitlen x - 1) \<le> x" by simp
  have "(2::int) ^ nat (bitlen x - 1) < 2 ^ m" by (rule le_less_trans [OF le assms(2)])
  then have "nat (bitlen x - 1) < m" by (simp add: power_strict_increasing_iff)
  then show ?thesis by simp
qed

lemma floor_log2_quot_le:
  assumes b: "0 < b" and n: "0 < n" "n < 2 ^ 53"
  shows "floor_log2_quot (n * b) b \<le> 52"
proof -
  have a: "0 < n * b" using b n by simp
  have bb: "b < 2 ^ nat (bitlen b)" using bitlen_bounds [OF b] by simp
  have "n * b < 2 ^ 53 * b" using n b by simp
  also have "\<dots> < 2 ^ 53 * 2 ^ nat (bitlen b)" using bb by simp
  also have "\<dots> = 2 ^ (53 + nat (bitlen b))" by (simp add: power_add)
  finally have "bitlen (n * b) \<le> int (53 + nat (bitlen b))"
    by (rule bitlen_le_of_less_power [OF a])
  then have d: "bitlen (n * b) - bitlen b \<le> 53" using bitlen_nonneg [of b] by simp
  show ?thesis
  proof (cases "bitlen (n * b) - bitlen b = 53")
    case True
    have "\<not> b * 2 ^ 53 \<le> n * b" using n b by simp
    with True show ?thesis by (simp add: floor_log2_quot_def)
  next
    case False
    with d have "bitlen (n * b) - bitlen b \<le> 52" by simp
    then show ?thesis by (simp add: floor_log2_quot_def Let_def)
  qed
qed

lemma true_div_trunc_exact:
  assumes b: "0 < b" and n: "0 \<le> n" "n < 2 ^ 53"
  shows "true_div_trunc (n * b) b = n"
proof (cases "n = 0")
  case True
  then show ?thesis by (simp add: true_div_trunc_def)
next
  case False
  with n have n0: "0 < n" by simp
  have ne: "n * b \<noteq> 0" using n0 b by simp
  define e where "e = floor_log2_quot (n * b) b - 52"
  have e: "e \<le> 0" unfolding e_def using floor_log2_quot_le [OF b n0 n(2)] by simp
  show ?thesis
  proof (cases "0 \<le> e")
    case True
    with e have "e = 0" by simp
    then show ?thesis
      using ne round_half_even_exact [OF b, of n]
      by (simp add: true_div_trunc_def e_def [symmetric])
  next
    case False
    have "round_half_even (n * b * 2 ^ nat (- e)) b = n * 2 ^ nat (- e)"
      using round_half_even_exact [OF b, of "n * 2 ^ nat (- e)"] by (simp add: mult.assoc mult.left_commute mult.commute)
    with False show ?thesis
      using ne by (simp add: true_div_trunc_def e_def [symmetric])
  qed
qed

lemma total_seconds_int_whole:
  assumes "0 \<le> n" "n < 2 ^ 53"
  shows "total_seconds_int (td_seconds n) = n"
  using true_div_trunc_exact [of 1000000 n] assms
  by (simp add: total_seconds_int_def td_seconds_def)


section \<open>Durations as text: formatting and parsing agree\<close>

lemma lt10_cases:
  "d < 10 \<Longrightarrow> d = 0 \<or> d = 1 \<or> d = 2 \<or> d = 3 \<or> d = 4 \<or> d = 5 \<or> d = 6 \<or> d = 7 \<or> d = 8 \<or> d = (9::nat)"
  by arith

lemma digit_val_digit_char: "d < 10 \<Longrightarrow> digit_val (digit_char d) = Some d"
  by (drule lt10_cases) (auto simp: digit_val_def digit_char_def)

lemma digit_char_in: "d < 10 \<Longrightarrow> digit_char d \<in> set ''0123456789''"
  unfolding digit_char_def by (rule nth_mem) simp

lemma digit_char_not_underscore: "d < 10 \<Longrightarrow> digit_char d \<noteq> CHR ''_''"
  using digit_char_in [of d] by auto

lemma str_nat_digits: "set (str_nat n) \<subseteq> set ''0123456789''"
proof (induction n rule: str_nat.induct)
  case (1 n)
  show ?case
  proof (cases "n < 10")
    case True
    then show ?thesis using digit_char_in [of n] by (subst str_nat.simps) simp
  next
    case False
    have "n mod 10 < 10" by simp
    from digit_char_in [OF this] "1.IH" [OF False] False show ?thesis
      by (subst str_nat.simps) simp
  qed
qed

lemma str_nat_not_Nil: "str_nat n \<noteq> []"
  by (subst str_nat.simps) simp

lemma hd_str_nat: "hd (str_nat n) \<in> set ''0123456789''"
  using str_nat_digits [of n] str_nat_not_Nil [of n] by (cases "str_nat n") auto

lemma last_str_nat: "last (str_nat n) \<in> set ''0123456789''"
  using str_nat_digits [of n] str_nat_not_Nil [of n] last_in_set [of "str_nat n"] by blast

lemma str_nat_length: "0 < k \<Longrightarrow> n < 10 ^ k \<Longrightarrow> length (str_nat n) \<le> k"
proof (induction k arbitrary: n)
  case 0
  then show ?case by simp
next
  case (Suc k)
  show ?case
  proof (cases "n < 10")
    case True
    then show ?thesis by (subst str_nat.simps) simp
  next
    case False
    then have k: "0 < k" using Suc.prems by (cases k) simp_all
    have "n div 10 < 10 ^ k" using Suc.prems(2) by (simp add: less_mult_imp_div_less mult.commute)
    from Suc.IH [OF k this] False show ?thesis by (subst str_nat.simps) simp
  qed
qed

lemma parse_digits_str_nat:
  "parse_digits acc prev (str_nat n @ ys) =
     parse_digits (acc * 10 ^ length (str_nat n) + n) True ys"
proof (induction n arbitrary: acc prev ys rule: str_nat.induct)
  case (1 n)
  show ?case
  proof (cases "n < 10")
    case True
    then have s: "str_nat n = [digit_char n]" by (subst str_nat.simps) simp
    show ?thesis
      using True by (simp add: s digit_char_not_underscore digit_val_digit_char mult.commute)
  next
    case False
    then have s: "str_nat n = str_nat (n div 10) @ [digit_char (n mod 10)]"
      by (subst str_nat.simps) simp
    have m: "n mod 10 < 10" by simp
    have "parse_digits acc prev (str_nat n @ ys) =
          parse_digits acc prev (str_nat (n div 10) @ (digit_char (n mod 10) # ys))"
      by (simp add: s)
    also have "\<dots> = parse_digits (acc * 10 ^ length (str_nat (n div 10)) + n div 10) True
                        (digit_char (n mod 10) # ys)"
      by (rule "1.IH" [OF False])
    also have "\<dots> = parse_digits
                        (10 * (acc * 10 ^ length (str_nat (n div 10)) + n div 10) + n mod 10)
                        True ys"
      by (simp add: digit_char_not_underscore [OF m] digit_val_digit_char [OF m])
    also have "10 * (acc * 10 ^ length (str_nat (n div 10)) + n div 10) + n mod 10 =
               acc * 10 ^ length (str_nat n) + n"
      by (simp add: s algebra_simps)
    finally show ?thesis .
  qed
qed

lemma parse_digits_zeros:
  "parse_digits 0 prev (replicate k CHR ''0'' @ str_nat n) = Some n"
proof (induction k arbitrary: prev)
  case 0
  show ?case using parse_digits_str_nat [of 0 prev n "[]"] by simp
next
  case (Suc k)
  then show ?case by (simp add: digit_val_def)
qed

lemma not_space_digit: "c \<in> set ''0123456789'' \<Longrightarrow> \<not> is_space c"
  by (auto simp: is_space_def)

lemma not_space_minus: "\<not> is_space CHR ''-''"
  by (simp add: is_space_def)

lemma py_strip_id:
  assumes "s \<noteq> []" "\<not> is_space (hd s)" "\<not> is_space (last s)"
  shows "py_strip s = s"
proof -
  have dw: "xs \<noteq> [] \<Longrightarrow> \<not> is_space (hd xs) \<Longrightarrow> dropWhile is_space xs = xs" for xs
    by (cases xs) simp_all
  have 1: "dropWhile is_space s = s" using assms(1,2) by (rule dw)
  have "rev s \<noteq> []" "\<not> is_space (hd (rev s))" using assms(1,3) by (simp_all add: hd_rev)
  then have 2: "dropWhile is_space (rev s) = rev s" by (rule dw)
  show ?thesis by (simp add: py_strip_def 1 2)
qed

lemma py_nat_padded:
  assumes "k + length (str_nat n) \<le> 4300"
  shows "py_nat (replicate k CHR ''0'' @ str_nat n) = Inr (int n)"
proof -
  have "length (filter (\<lambda>c. c \<noteq> CHR ''_'') (replicate k CHR ''0'' @ str_nat n))
          \<le> length (replicate k CHR ''0'' @ str_nat n)"
    by (rule length_filter_le)
  moreover have "length (replicate k CHR ''0'' @ str_nat n) = k + length (str_nat n)"
    by simp
  ultimately
  have "\<not> 4300 < length (filter (\<lambda>c. c \<noteq> CHR ''_'') (replicate k CHR ''0'' @ str_nat n))"
    using assms by linarith
  then show ?thesis
    unfolding py_nat_def using parse_digits_zeros [of False k n]
    by (simp only: if_False option.case)
qed

lemma py_int_padded:
  assumes "k + length (str_nat n) \<le> 4300"
  shows "py_int (replicate k CHR ''0'' @ str_nat n) = Inr (int n)"
proof -
  let ?p = "replicate k CHR ''0'' @ str_nat n"
  have ne: "?p \<noteq> []" by (simp add: str_nat_not_Nil)
  have hd: "hd ?p \<in> set ''0123456789''"
    using hd_str_nat [of n] by (cases k) (simp_all add: hd_append str_nat_not_Nil)
  have la: "last ?p \<in> set ''0123456789''"
    using last_str_nat [of n] by (simp add: str_nat_not_Nil)
  have st: "py_strip ?p = ?p"
    by (rule py_strip_id [OF ne not_space_digit [OF hd] not_space_digit [OF la]])
  obtain c cs where p: "?p = c # cs" using ne by (cases ?p) auto
  with hd have c: "c \<noteq> CHR ''-''" "c \<noteq> CHR ''+''" by auto
  show ?thesis
    unfolding py_int_def st using py_nat_padded [OF assms] c by (simp add: p)
qed

lemma py_int_str_int:
  assumes "\<bar>i\<bar> < 10 ^ 16"
  shows "py_int (str_int i) = Inr i"
proof (cases "i < 0")
  case False
  have "nat i < 10 ^ 16" using assms False by (simp add: nat_less_iff)
  then have "length (str_nat (nat i)) \<le> 16" by (intro str_nat_length) simp_all
  then have "0 + length (str_nat (nat i)) \<le> 4300" by simp
  from py_int_padded [OF this] False show ?thesis by (simp add: str_int_def)
next
  case True
  let ?s = "str_nat (nat (- i))"
  have "nat (- i) < 10 ^ 16" using assms True by (simp add: nat_less_iff)
  then have "length ?s \<le> 16" by (intro str_nat_length) simp_all
  then have len: "0 + length ?s \<le> 4300" by simp
  have ne: "CHR ''-'' # ?s \<noteq> []" by simp
  have la: "last (CHR ''-'' # ?s) \<in> set ''0123456789''"
    using last_str_nat [of "nat (- i)"] by (simp add: str_nat_not_Nil)
  have st: "py_strip (CHR ''-'' # ?s) = CHR ''-'' # ?s"
    by (rule py_strip_id [OF ne _ not_space_digit [OF la]]) (simp add: not_space_minus)
  show ?thesis
    using True py_nat_padded [OF len] by (simp add: str_int_def py_int_def st)
qed

lemma py_int_fmt_02d:
  assumes "0 \<le> i" "i < 10 ^ 16"
  shows "py_int (fmt_02d i) = Inr i"
proof -
  have "nat i < 10 ^ 16" using assms by (simp add: nat_less_iff)
  then have "length (str_nat (nat i)) \<le> 16" by (intro str_nat_length) simp_all
  then have "(2 - length (str_nat (nat i))) + length (str_nat (nat i)) \<le> 4300" by simp
  from py_int_padded [OF this] assms show ?thesis
    by (simp add: fmt_02d_def str_int_def Let_def)
qed

lemma split_on_no_sep: "c \<notin> set a \<Longrightarrow> split_on c a = [a]"
  by (induction a) auto

lemma split_on_append: "c \<notin> set a \<Longrightarrow> split_on c (a @ c # rest) = a # split_on c rest"
  by (induction a) auto

lemma colon_not_in_str_int: "CHR '':'' \<notin> set (str_int i)"
  using str_nat_digits [of "nat i"] str_nat_digits [of "nat (- i)"]
  by (auto simp: str_int_def)

lemma colon_not_in_fmt_02d: "CHR '':'' \<notin> set (fmt_02d i)"
  using colon_not_in_str_int [of i] by (auto simp: fmt_02d_def Let_def)

lemma hms_recompose:
  "(n div 3600) * 3600000000 + ((n mod 3600) div 60) * 60000000 + (n mod 60) * 1000000
     = td_seconds n" for n :: int
proof -
  have "n mod 60 = (n mod 3600) mod 60"
    by (simp add: mod_mod_cancel)
  then have "60 * ((n mod 3600) div 60) + n mod 60 = n mod 3600"
    by simp
  moreover have "3600 * (n div 3600) + n mod 3600 = n" by simp
  ultimately have "3600 * (n div 3600) + 60 * ((n mod 3600) div 60) + n mod 60 = n"
    by linarith
  then show ?thesis unfolding td_seconds_def by linarith
qed

lemma seconds_in_calendar:
  assumes "0 \<le> n" "td_seconds n \<le> max_wall + td_seconds 30"
  shows "n < 2 ^ 53" and "n < 10 ^ 16" and "timedelta_of (td_seconds n) = Inr (td_seconds n)"
proof -
  from assms(2) have n: "n \<le> 315537897629" by (simp add: td_seconds_def max_wall_def)
  then show "n < 2 ^ 53" "n < 10 ^ 16" by simp_all
  have "(n * 1000000) div 86400000000 \<le> (315537897629 * 1000000) div 86400000000"
    using n by (intro zdiv_mono1) simp_all
  moreover have "0 \<le> (n * 1000000) div 86400000000"
    using assms(1) by (intro pos_imp_zdiv_nonneg_iff [THEN iffD2]) simp_all
  ultimately show "timedelta_of (td_seconds n) = Inr (td_seconds n)"
    by (simp add: timedelta_of_def td_seconds_def)
qed

lemma parse_format_hms:
  assumes "0 \<le> n" "td_seconds n \<le> max_wall + td_seconds 30"
  shows "parse_duration_string (format_hms n) = Inr (td_seconds n)"
proof -
  let ?h = "n div 3600" and ?m = "(n mod 3600) div 60" and ?s = "n mod 60"
  note b = seconds_in_calendar [OF assms]
  have h: "\<bar>?h\<bar> < 10 ^ 16"
  proof -
    have "0 \<le> ?h" using assms(1) by (simp add: pos_imp_zdiv_nonneg_iff)
    moreover have "?h \<le> n" using zdiv_mono2 [of n 1 3600] assms(1) by simp
    ultimately show ?thesis using b(2) by simp
  qed
  have m: "0 \<le> ?m" "?m < 10 ^ 16"
  proof -
    show "0 \<le> ?m" by simp
    have "?m \<le> n mod 3600" using zdiv_mono2 [of "n mod 3600" 1 60] by simp
    moreover have "n mod 3600 < 3600" by simp
    ultimately show "?m < 10 ^ 16" by simp
  qed
  have s: "0 \<le> ?s" "?s < 10 ^ 16"
  proof -
    show "0 \<le> ?s" by simp
    have "?s < 60" by simp
    then show "?s < 10 ^ 16" by simp
  qed
  have "split_on CHR '':'' (format_hms n) = [str_int ?h, fmt_02d ?m, fmt_02d ?s]"
    by (simp add: format_hms_def Let_def split_on_append split_on_no_sep
          colon_not_in_str_int colon_not_in_fmt_02d)
  then show ?thesis
    using hms_recompose [of n] b(3)
    by (simp add: parse_duration_string_def py_int_str_int [OF h] py_int_fmt_02d [OF m]
          py_int_fmt_02d [OF s])
qed

section \<open>Properties of the night summarizer\<close>

lemma create_30s_segments_Nil:
  "\<not> dt_lt Z c e \<Longrightarrow> create_30s_segments Z c e = Inr []"
  by (subst create_30s_segments.simps) simp

lemma create_30s_segments_Nil_iff:
  "create_30s_segments Z c e = Inr [] \<longleftrightarrow> \<not> dt_lt Z c e"
  by (subst create_30s_segments.simps) (auto split: sum.splits)

lemma create_30s_segments_slots:
  "create_30s_segments Z c e = Inr segs \<Longrightarrow>
     segs = wake_slots c (length segs)
     \<and> (segs = [] \<or> (wall c + td_seconds 30 * int (length segs) \<le> max_wall
                      \<and> - td_seconds 30 \<le> wall c))"
proof (induction Z c e arbitrary: segs rule: create_30s_segments.induct)
  case (1 Z c e)
  show ?case
  proof (cases "dt_lt Z c e")
    case False
    with "1.prems" have "segs = []" by (simp add: create_30s_segments_Nil)
    then show ?thesis by (simp add: wake_slots_def)
  next
    case True
    from "1.prems" True obtain c' segs' where
      add: "dt_add c (td_seconds 30) = Inr c'"
      and rec: "create_30s_segments Z c' e = Inr segs'"
      and segs: "segs = \<lparr>Start = c, Stage = WAKE\<rparr> # segs'"
      by (subst (asm) create_30s_segments.simps) (auto split: sum.splits)
    from "1.IH" [OF True add rec] have
      IH1: "segs' = wake_slots c' (length segs')"
      and IH2: "segs' = [] \<or> wall c' + td_seconds 30 * int (length segs') \<le> max_wall" by blast+
    from add have c': "wall c' = wall c + td_seconds 30"
      and r: "0 \<le> wall c + td_seconds 30" "wall c + td_seconds 30 \<le> max_wall"
      by (auto simp: dt_add_def split: if_splits)
    have "segs = wake_slots c (length segs)"
      unfolding segs using wake_slots_Suc [OF add, of "length segs'"] IH1 by simp
    moreover have "wall c + td_seconds 30 * int (length segs) \<le> max_wall"
      using IH2 r(2) by (auto simp: segs c' algebra_simps)
    moreover have "- td_seconds 30 \<le> wall c" using r(1) by simp
    ultimately show ?thesis by simp
  qed
qed

lemma night_segments_Inr:
  assumes "night_segments Z first rest = Inr segs"
  obtains base where
    "create_30s_segments Z (StartDate first) (night_end_time Z first rest) = Inr base"
    "segs = update_segments_with_sleep_data Z base (first # rest)"
    "length segs = length base"
  using assms unfolding night_segments_def by (auto split: sum.splits)

lemma night_segments_Start:
  assumes "night_segments Z first rest = Inr segs" "k < length segs"
  shows "Start (segs ! k) = slot_start (StartDate first) k"
    and "td_seconds 30 * int k \<le> max_wall + td_seconds 30"
proof -
  from assms(1) obtain base where
    c: "create_30s_segments Z (StartDate first) (night_end_time Z first rest) = Inr base"
    and u: "segs = update_segments_with_sleep_data Z base (first # rest)"
    and l: "length segs = length base"
    by (rule night_segments_Inr)
  from create_30s_segments_slots [OF c] have
    b: "base = wake_slots (StartDate first) (length base)"
    and r: "base = [] \<or> (wall (StartDate first) + td_seconds 30 * int (length base) \<le> max_wall
                           \<and> - td_seconds 30 \<le> wall (StartDate first))"
    by simp_all
  have "Start (segs ! k) = map Start segs ! k" using assms(2) by simp
  also have "map Start segs = map Start base" unfolding u by (rule update_segments_Start)
  also have "map Start base ! k = Start (base ! k)" using assms(2) l by simp
  also have "base ! k = wake_slots (StartDate first) (length base) ! k" using b by simp
  also have "Start \<dots> = slot_start (StartDate first) k"
    using assms(2) l by (simp add: wake_slots_def)
  finally show "Start (segs ! k) = slot_start (StartDate first) k" .
  from assms(2) l r have
    r1: "wall (StartDate first) + td_seconds 30 * int (length base) \<le> max_wall"
    and r2: "- td_seconds 30 \<le> wall (StartDate first)" by auto
  have "td_seconds 30 * int k \<le> td_seconds 30 * int (length base)"
    using assms(2) l by (intro mult_left_mono) (simp_all add: td_seconds_def)
  with r1 r2 show "td_seconds 30 * int k \<le> max_wall + td_seconds 30" by linarith
qed

lemma dt_sub_slot_start: "dt_sub Z (slot_start c k) c = td_seconds (30 * int k)"
  by (simp add: dt_sub_def slot_start_def td_seconds_def)

lemma sleep_onset_segment_index:
  assumes "sleep_onset_segment segments = Inr onset"
  obtains k where "k < length segments" "onset = segments ! k"
    "\<forall>j<k. Stage (segments ! j) = WAKE"
proof -
  from assms have ne: "segments \<noteq> []" by (auto simp: sleep_onset_segment_def)
  show ?thesis
  proof (cases "find (\<lambda>segment. Stage segment \<noteq> WAKE) segments")
    case None
    with ne assms have "onset = segments ! 0"
      by (cases segments) (simp_all add: sleep_onset_segment_def)
    with ne that [of 0] show ?thesis by simp
  next
    case (Some x)
    then obtain i where i: "i < length segments" "x = segments ! i"
      "\<forall>j<i. \<not> Stage (segments ! j) \<noteq> WAKE"
      unfolding find_Some_iff by blast
    from Some ne assms have "onset = x"
      by (cases segments) (simp_all add: sleep_onset_segment_def)
    with i that [of i] show ?thesis by simp
  qed
qed

lemma sleep_onset_segment_Nil: "sleep_onset_segment [] = Inl IndexError"
  by (simp add: sleep_onset_segment_def)

lemma sleep_onset_segment_total:
  "segments \<noteq> [] \<Longrightarrow> \<exists>onset. sleep_onset_segment segments = Inr onset"
  by (cases segments) (simp_all add: sleep_onset_segment_def split: option.splits)

lemma onset_duration:
  assumes "night_segments Z first rest = Inr segs" "k < length segs"
  shows "dt_sub Z (Start (segs ! k)) (StartDate first) = td_seconds (30 * int k)"
    and "calculate_duration Z (StartDate first) (Start (segs ! k)) = format_hms (30 * int k)"
    and "parse_duration_string (format_hms (30 * int k)) = Inr (td_seconds (30 * int k))"
proof -
  note st = night_segments_Start [OF assms]
  have n0: "0 \<le> 30 * int k" by simp
  have n1: "td_seconds (30 * int k) \<le> max_wall + td_seconds 30"
    using st(2) by (simp add: td_seconds_def)
  show sub: "dt_sub Z (Start (segs ! k)) (StartDate first) = td_seconds (30 * int k)"
    unfolding st(1) by (rule dt_sub_slot_start)
  show "calculate_duration Z (StartDate first) (Start (segs ! k)) = format_hms (30 * int k)"
    unfolding calculate_duration_def sub
    using total_seconds_int_whole [OF n0 seconds_in_calendar(1) [OF n0 n1]] by simp
  show "parse_duration_string (format_hms (30 * int k)) = Inr (td_seconds (30 * int k))"
    by (rule parse_format_hms [OF n0 n1])
qed

lemma summarize_Inr:
  assumes "summarize Z first rest = Inr out"
  obtains segs onset onset_td where
    "night_segments Z first rest = Inr segs"
    "sleep_onset_segment segs = Inr onset"
    "parse_duration_string (calculate_duration Z (StartDate first) (Start onset)) = Inr onset_td"
    "out = \<lparr>Type = ''night'',
            StartTime = strftime_second (StartDate first),
            StopTime = strftime_second (night_end_time Z first rest),
            SleepDuration = calculate_duration Z (StartDate first) (night_end_time Z first rest),
            SleepOnsetDuration = calculate_duration Z (StartDate first) (Start onset),
            LightSleepDuration = format_timedelta (stage_durations segs Light),
            DeepSleepDuration = format_timedelta (stage_durations segs Deep),
            REMDuration = format_timedelta (stage_durations segs REM),
            WakeAfterSleepOnsetDuration = format_timedelta (stage_durations segs WAKE - onset_td),
            NumberOfAwakenings = num_awakenings segs,
            PositionChanges = 0,
            MeanHeartRate = 0,
            MeanRespirationCPM = 0,
            NumberOfStimulations = 0,
            SleepEfficiency = 0,
            Hypnogram = ''['' @ join '','' (map (\<lambda>segment. stage_name (Stage segment)) segs) @ '']''\<rparr>"
  using assms unfolding summarize_def Let_def
  by (auto split: sum.splits)

lemma summarize_onset:
  assumes "summarize Z first rest = Inr out"
  obtains segs onset k where
    "night_segments Z first rest = Inr segs"
    "sleep_onset_segment segs = Inr onset"
    "k < length segs" "onset = segs ! k" "\<forall>j<k. Stage (segs ! j) = WAKE"
    "dt_sub Z (Start onset) (StartDate first) = td_seconds (30 * int k)"
    "SleepOnsetDuration out = format_hms (30 * int k)"
    "WakeAfterSleepOnsetDuration out =
       format_timedelta (stage_durations segs WAKE - td_seconds (30 * int k))"
    "NumberOfAwakenings out = num_awakenings segs"
proof -
  from assms obtain segs onset onset_td where
    n: "night_segments Z first rest = Inr segs"
    and o: "sleep_onset_segment segs = Inr onset"
    and p: "parse_duration_string (calculate_duration Z (StartDate first) (Start onset)) = Inr onset_td"
    and out: "SleepOnsetDuration out = calculate_duration Z (StartDate first) (Start onset)"
       "WakeAfterSleepOnsetDuration out = format_timedelta (stage_durations segs WAKE - onset_td)"
       "NumberOfAwakenings out = num_awakenings segs"
    by (rule summarize_Inr) simp
  from o obtain k where k: "k < length segs" "onset = segs ! k"
    "\<forall>j<k. Stage (segs ! j) = WAKE"
    by (rule sleep_onset_segment_index)
  note d = onset_duration [OF n k(1)]
  from p have "onset_td = td_seconds (30 * int k)"
    unfolding k(2) d(2) d(3) by simp
  with out d k n o that show ?thesis by (simp add: k(2))
qed

text \<open>
  C8. The awakening count of a slot sequence is the number of positions whose slot is
  not WAKE and whose next slot is WAKE; it is zero when every slot is WAKE; and the
  count the summary reports for a night is that number for the night's timeline.
\<close>

theorem num_awakenings_transitions:
  "num_awakenings segments = spec_awakenings segments
   \<and> (list_all (\<lambda>segment. Stage segment = WAKE) segments \<longrightarrow> num_awakenings segments = 0)
   \<and> (summarize Z first rest = Inr out \<longrightarrow>
        (\<exists>timeline. night_segments Z first rest = Inr timeline
                   \<and> NumberOfAwakenings out = spec_awakenings timeline))"
proof (intro conjI impI)
  show "num_awakenings segments = spec_awakenings segments"
    by (rule num_awakenings_index)
  show "num_awakenings segments = 0" if "list_all (\<lambda>segment. Stage segment = WAKE) segments"
    using that by (rule num_awakenings_all_wake)
  assume "summarize Z first rest = Inr out"
  then obtain segs where "night_segments Z first rest = Inr segs"
    "NumberOfAwakenings out = num_awakenings segs"
    by (rule summarize_onset)
  then show "\<exists>timeline. night_segments Z first rest = Inr timeline
                   \<and> NumberOfAwakenings out = spec_awakenings timeline"
    by (simp add: num_awakenings_index)
qed

lemma wake_count_ge:
  assumes "\<forall>j<k. Stage (segs ! j) = WAKE" "k \<le> length segs"
  shows "k \<le> length (filter (\<lambda>s. Stage s = WAKE) segs)"
proof -
  have "filter (\<lambda>s. Stage s = WAKE) (take k segs) = take k segs"
    using assms by (auto simp: filter_id_conv in_set_conv_nth)
  moreover have "filter (\<lambda>s. Stage s = WAKE) segs =
      filter (\<lambda>s. Stage s = WAKE) (take k segs) @ filter (\<lambda>s. Stage s = WAKE) (drop k segs)"
    by (metis append_take_drop_id filter_append)
  ultimately show ?thesis using assms(2) by simp
qed

lemma example_night_segments:
  "night_segments tz_utc example_first example_rest = Inr example_timeline"
  by code_simp

lemma example_summarize:
  "summarize tz_utc example_first example_rest = Inr example_summary"
  by code_simp

theorem num_awakenings_transitions_witness:
  "list_all (\<lambda>segment. Stage segment = WAKE)
     [\<lparr>Start = \<lparr>wall = 0, fold_dt = False, tzinfo = 0\<rparr>, Stage = WAKE\<rparr>,
      \<lparr>Start = \<lparr>wall = 30000000, fold_dt = False, tzinfo = 0\<rparr>, Stage = WAKE\<rparr>]
   \<and> num_awakenings
       [\<lparr>Start = \<lparr>wall = 0, fold_dt = False, tzinfo = 0\<rparr>, Stage = WAKE\<rparr>,
        \<lparr>Start = \<lparr>wall = 30000000, fold_dt = False, tzinfo = 0\<rparr>, Stage = WAKE\<rparr>] = 0
   \<and> summarize tz_utc example_first example_rest = Inr example_summary
   \<and> night_segments tz_utc example_first example_rest = Inr example_timeline
   \<and> NumberOfAwakenings example_summary = spec_awakenings example_timeline
   \<and> NumberOfAwakenings example_summary = 1"
  using num_awakenings_transitions
    [of "[\<lparr>Start = \<lparr>wall = 0, fold_dt = False, tzinfo = 0\<rparr>, Stage = WAKE\<rparr>,
          \<lparr>Start = \<lparr>wall = 30000000, fold_dt = False, tzinfo = 0\<rparr>, Stage = WAKE\<rparr>]"
        tz_utc example_first example_rest example_summary]
    example_summarize example_night_segments
  by (simp add: example_summary_def)


section \<open>Wake after sleep onset\<close>




lemma wake_after_sleep_onset_nonneg:
  assumes "summarize Z first rest = Inr out"
      and "night_segments Z first rest = Inr timeline"
      and "sleep_onset_segment timeline = Inr onset"
  shows "0 \<le> stage_durations timeline WAKE - dt_sub Z (Start onset) (StartDate first)"
proof -
  from assms(1) obtain segs onset' k where
    n: "night_segments Z first rest = Inr segs"
    and o: "sleep_onset_segment segs = Inr onset'"
    and k: "k < length segs" "\<forall>j<k. Stage (segs ! j) = WAKE"
    and sub: "dt_sub Z (Start onset') (StartDate first) = td_seconds (30 * int k)"
    by (rule summarize_onset)
  from n o assms(2,3) have eq: "segs = timeline" "onset' = onset" by simp_all
  from wake_count_ge [OF k(2)] k(1)
  have "k \<le> length (filter (\<lambda>s. Stage s = WAKE) segs)" by simp
  with sub show ?thesis
    unfolding eq by (simp add: stage_durations_count td_seconds_def)
qed




section \<open>A night without slots\<close>

lemma night_segments_Nil:
  "\<not> dt_lt Z (StartDate first) (night_end_time Z first rest) \<Longrightarrow>
     night_segments Z first rest = Inr []"
  by (simp add: night_segments_def create_30s_segments_Nil update_segments_map)

lemma summarize_empty_timeline:
  "\<not> dt_lt Z (StartDate first) (night_end_time Z first rest) \<Longrightarrow>
     summarize Z first rest = Inl IndexError"
  by (simp add: summarize_def Let_def night_segments_Nil sleep_onset_segment_Nil)

text \<open>
  C10. Let the sorted and shifted entries of a non-empty night be \<open>first # rest\<close>, and let
  the night's start (the start of \<open>first\<close>) not be before its end (the latest end), as
  when the earliest start equals the latest end. Then the timeline is built and is
  empty, and the summarizer raises \<^verbatim>\<open>IndexError\<close> instead of returning a summary. A
  single interval of length zero is such a night.
\<close>

theorem process_health_data_empty_timeline:
  assumes "shift_entries time_shift_seconds
             (py_sorted (\<lambda>a b. dt_lt Z (StartDate a) (StartDate b)) sleep_data)
           = Inr (first # rest)"
      and "\<not> dt_lt Z (StartDate first) (night_end_time Z first rest)"
  shows "night_segments Z first rest = Inr []
       \<and> process_health_data Z sleep_data time_shift_seconds = Inl IndexError"
  using assms
  by (simp add: process_health_data_def night_segments_Nil summarize_empty_timeline)

theorem process_health_data_empty_timeline_witness:
  "shift_entries 0
     (py_sorted (\<lambda>a b. dt_lt tz_utc (StartDate a) (StartDate b))
        [\<lparr>Source = ''watch'', Qty = (),
          StartDate = \<lparr>wall = 63852879600000000, fold_dt = False, tzinfo = 0\<rparr>,
          Value = ''Deep'',
          EndDate = \<lparr>wall = 63852879600000000, fold_dt = False, tzinfo = 0\<rparr>\<rparr>])
     = Inr [\<lparr>Source = ''watch'', Qty = (),
             StartDate = \<lparr>wall = 63852879600000000, fold_dt = False, tzinfo = 0\<rparr>,
             Value = ''Deep'',
             EndDate = \<lparr>wall = 63852879600000000, fold_dt = False, tzinfo = 0\<rparr>\<rparr>]
   \<and> process_health_data tz_utc
       [\<lparr>Source = ''watch'', Qty = (),
         StartDate = \<lparr>wall = 63852879600000000, fold_dt = False, tzinfo = 0\<rparr>,
         Value = ''Deep'',
         EndDate = \<lparr>wall = 63852879600000000, fold_dt = False, tzinfo = 0\<rparr>\<rparr>] 0
     = Inl IndexError"
proof -
  let ?e = "\<lparr>Source = ''watch'', Qty = (),
          StartDate = \<lparr>wall = 63852879600000000, fold_dt = False, tzinfo = 0\<rparr>,
          Value = ''Deep'',
          EndDate = \<lparr>wall = 63852879600000000, fold_dt = False, tzinfo = 0\<rparr>\<rparr>"
  have h1: "shift_entries 0 (py_sorted (\<lambda>a b. dt_lt tz_utc (StartDate a) (StartDate b)) [?e])
              = Inr (?e # [])"
    by (simp add: py_sorted_def shift_entry_def apply_time_shift_def timedelta_of_def
          td_seconds_def dt_add_def max_wall_def)
  have h2: "\<not> dt_lt tz_utc (StartDate ?e) (night_end_time tz_utc ?e [])"
    by (simp add: night_end_time_def dt_lt_def dt_sub_def)
  from process_health_data_empty_timeline [OF h1 h2] h1 show ?thesis by simp
qed

end
